theory Spec2Isabelle
  imports Main "HOL-Library.Word" "HOL-Library.Multiset"
begin

section \<open>The event store of script.js\<close>

text \<open>
  The program is one script: a global array \<open>events\<close>, a mirror of it under the key
  \<open>'events'\<close> of the browser's local storage, and handlers that vote, comment and create
  events. Each handler is modelled as a function from the state before to the state after,
  together with what the handler shows to the user. What the handlers read from the page and
  from the platform (the values of form fields, the clock, the random generator, the answer of
  \<open>checkValidity()\<close>, the time value of a date string, whether a query of the page throws)
  is an argument of the function.
\<close>

subsection \<open>Strings\<close>

text \<open>
  A JavaScript string is a sequence of 16-bit code units; \<open>.length\<close> counts them and
  \<open>===\<close> compares them one by one. The literals of the script are written with \<open>js\<close>, which
  reads each character of an Isabelle string as the code unit of the same number (all literals
  of the script lie in the Latin-1 range).
\<close>

type_synonym jsstring = "16 word list"

definition js :: "string \<Rightarrow> jsstring" where
  "js s = map of_char s"

text \<open>
  \<open>String.prototype.trim\<close> removes white space and line terminators at both ends: TAB, LF, VT,
  FF, CR, SP, NBSP, U+1680, U+2000 to U+200A, U+2028, U+2029, U+202F, U+205F, U+3000 and U+FEFF.
\<close>

definition is_js_space :: "16 word \<Rightarrow> bool" where
  "is_js_space c \<longleftrightarrow>
     c \<in> {0x09, 0x0A, 0x0B, 0x0C, 0x0D, 0x20, 0xA0, 0x1680, 0x2028, 0x2029, 0x202F,
          0x205F, 0x3000, 0xFEFF} \<or> (0x2000 \<le> c \<and> c \<le> 0x200A)"

definition trim :: "jsstring \<Rightarrow> jsstring" where
  "trim s = rev (dropWhile is_js_space (rev (dropWhile is_js_space s)))"

text \<open>
  A number in a template literal, for the integers the script prints (\<open>Date.now()\<close>): decimal
  digits, with a minus sign below zero.
\<close>

definition digit_unit :: "nat \<Rightarrow> 16 word" where
  "digit_unit d = of_nat (48 + d)"

fun nat_digits :: "nat \<Rightarrow> jsstring" where
  "nat_digits n = (if n < 10 then [digit_unit n] else nat_digits (n div 10) @ [digit_unit (n mod 10)])"

declare nat_digits.simps [simp del]

definition int_to_string :: "int \<Rightarrow> jsstring" where
  "int_to_string i = (if i < 0 then 0x2D # nat_digits (nat (- i)) else nat_digits (nat i))"

subsection \<open>Events and comments\<close>

text \<open>
  The object literals of the script, as records. The field \<open>id\<close> of an event is
  \<open>event_id\<close> here, and the fields of a comment carry the prefix \<open>comment_\<close> (\<open>id\<close>,
  \<open>text\<close> and a second \<open>date\<close> are not available as names). \<open>votes\<close> is a JavaScript
  number, a double, that only ever holds an integer; the \<open>int\<close> here is the value of that
  double.
\<close>

record comment =
  comment_author :: jsstring
  comment_text :: jsstring
  comment_date :: jsstring

record event =
  event_id :: jsstring
  title :: jsstring
  description :: jsstring
  imageUrl :: jsstring
  votes :: int
  category :: jsstring
  date :: jsstring
  comments :: "comment list"

text \<open>
  \<open>event.votes++\<close> on a double that holds the integer \<open>x\<close>: the double nearest to \<open>x + 1\<close>,
  ties to the even mantissa. From \<open>-2^53\<close> to \<open>2^53 - 1\<close> that is \<open>x + 1\<close>. From \<open>2^53\<close> on, and
  below \<open>-2^53\<close>, the doubles are the even integers (up to \<open>2^54\<close> in size) and then rarer
  ones, \<open>x + 1\<close> is no double, and the result is \<open>x\<close> again or, at a tie with an odd mantissa,
  \<open>x + 2\<close>: at \<open>2^53\<close> the counter stays where it is.
\<close>

definition increment :: "int \<Rightarrow> int" where
  "increment x =
     (if - (2 ^ 53) \<le> x \<and> x < 2 ^ 53 then x + 1
      else if 2 ^ 54 \<le> x \<or> x \<le> - (2 ^ 54) then x
      else if even (x div 2) then x
      else x + 2)"

subsection \<open>The platform\<close>

text \<open>
  What the handlers ask of the browser beyond the values they read, as a record of functions:
  \<^item> \<open>time_value\<close>: the time value of \<open>new Date(s)\<close> for a string \<open>s\<close>, with \<open>None\<close> for an
    invalid date (\<open>NaN\<close>);
  \<^item> \<open>engine_order\<close>: the order that \<open>Array.prototype.sort\<close> gives a list of comments when
    the comparator is not consistent, which the standard leaves to the engine;
  \<^item> \<open>counters_updated\<close>: whether the statement of \<open>handleVote\<close> that updates the vote
    counters of the page, \<open>$$(selector).forEach(...)\<close>, ends normally for a selector. It does
    not when \<open>querySelectorAll\<close> refuses the selector and throws a \<open>SyntaxError\<close>, or when a
    button it finds has no element before it.
\<close>

record platform =
  time_value :: "jsstring \<Rightarrow> int option"
  engine_order :: "comment list \<Rightarrow> comment list"
  counters_updated :: "jsstring \<Rightarrow> bool"

subsection \<open>JSON documents\<close>

text \<open>
  \<open>JSON.stringify\<close> and \<open>JSON.parse\<close> belong to the platform. The model keeps the JSON
  document that the text stands for and leaves the surface syntax to the platform: what is
  stored under a key of local storage is a document. The text of a document is never the empty
  string, so a stored document is truthy in \<open>if (storedEvents)\<close>.

  \<open>JSON.stringify\<close> writes the properties of an object in the order of their creation, which
  for every event and comment of this program is the order of the object literal that made it.
\<close>

datatype json =
    JNull
  | JBool bool
  | JNum int
  | JStr jsstring
  | JArr "json list"
  | JObj "(string \<times> json) list"

definition json_of_comment :: "comment \<Rightarrow> json" where
  "json_of_comment c =
     JObj [(''author'', JStr (comment_author c)),
           (''text'', JStr (comment_text c)),
           (''date'', JStr (comment_date c))]"

definition json_of_event :: "event \<Rightarrow> json" where
  "json_of_event e =
     JObj [(''id'', JStr (event_id e)),
           (''title'', JStr (title e)),
           (''description'', JStr (description e)),
           (''imageUrl'', JStr (imageUrl e)),
           (''votes'', JNum (votes e)),
           (''category'', JStr (category e)),
           (''date'', JStr (date e)),
           (''comments'', JArr (map json_of_comment (comments e)))]"

definition JSON_stringify :: "event list \<Rightarrow> json" where
  "JSON_stringify es = JArr (map json_of_event es)"

text \<open>
  \<open>JSON.parse\<close> gives back objects whose properties the script then reads by name. A document
  that is not an array of objects with exactly the properties of an event, of the right kinds,
  is outside the typed model of the collection: parsing it gives \<open>None\<close>.
\<close>

definition str_prop :: "(string \<times> json) list \<Rightarrow> string \<Rightarrow> jsstring option" where
  "str_prop kvs k = (case map_of kvs k of Some (JStr s) \<Rightarrow> Some s | _ \<Rightarrow> None)"

definition num_prop :: "(string \<times> json) list \<Rightarrow> string \<Rightarrow> int option" where
  "num_prop kvs k = (case map_of kvs k of Some (JNum n) \<Rightarrow> Some n | _ \<Rightarrow> None)"

definition arr_prop :: "(string \<times> json) list \<Rightarrow> string \<Rightarrow> json list option" where
  "arr_prop kvs k = (case map_of kvs k of Some (JArr xs) \<Rightarrow> Some xs | _ \<Rightarrow> None)"

definition comment_of_json :: "json \<Rightarrow> comment option" where
  "comment_of_json j =
     (case j of
        JObj kvs \<Rightarrow>
          if map fst kvs = [''author'', ''text'', ''date''] then
            Option.bind (str_prop kvs ''author'') (\<lambda>a.
            Option.bind (str_prop kvs ''text'') (\<lambda>t.
            Option.bind (str_prop kvs ''date'') (\<lambda>d.
              Some \<lparr>comment_author = a, comment_text = t, comment_date = d\<rparr>)))
          else None
      | _ \<Rightarrow> None)"

definition event_of_json :: "json \<Rightarrow> event option" where
  "event_of_json j =
     (case j of
        JObj kvs \<Rightarrow>
          if map fst kvs = [''id'', ''title'', ''description'', ''imageUrl'', ''votes'',
                            ''category'', ''date'', ''comments''] then
            Option.bind (str_prop kvs ''id'') (\<lambda>i.
            Option.bind (str_prop kvs ''title'') (\<lambda>t.
            Option.bind (str_prop kvs ''description'') (\<lambda>d.
            Option.bind (str_prop kvs ''imageUrl'') (\<lambda>im.
            Option.bind (num_prop kvs ''votes'') (\<lambda>v.
            Option.bind (str_prop kvs ''category'') (\<lambda>c.
            Option.bind (str_prop kvs ''date'') (\<lambda>dt.
            Option.bind (arr_prop kvs ''comments'') (\<lambda>cs.
            Option.bind (those (map comment_of_json cs)) (\<lambda>cms.
              Some \<lparr>event_id = i, title = t, description = d, imageUrl = im, votes = v,
                    category = c, date = dt, comments = cms\<rparr>)))))))))
          else None
      | _ \<Rightarrow> None)"

definition JSON_parse :: "json \<Rightarrow> event list option" where
  "JSON_parse j = (case j of JArr xs \<Rightarrow> those (map event_of_json xs) | _ \<Rightarrow> None)"

subsection \<open>The state: the global array and local storage\<close>

text \<open>
  \<open>localStorage\<close> maps a key to what is stored under it; \<open>getItem\<close> of an absent key is
  \<open>null\<close>, here \<open>None\<close>. \<open>setItem\<close> is modelled for a storage that has room for the document:
  the quota of the platform is not part of the model.
\<close>

record store =
  events :: "event list"
  localStorage :: "string \<rightharpoonup> json"

definition saveEventsToLocalStorage :: "store \<Rightarrow> store" where
  "saveEventsToLocalStorage s =
     s\<lparr>localStorage := (localStorage s)(''events'' \<mapsto> JSON_stringify (events s))\<rparr>"

text \<open>
  \<open>events.find(e => e.id === eventId)\<close> is \<open>find\<close> of the list library: the first element
  that matches, or \<open>undefined\<close>. The handlers then assign to a property of the object found;
  in the list that is a change of the first matching element, in place.
\<close>

definition find_event :: "event list \<Rightarrow> jsstring \<Rightarrow> event option" where
  "find_event es eventId = find (\<lambda>e. event_id e = eventId) es"

fun update_found :: "('a \<Rightarrow> bool) \<Rightarrow> ('a \<Rightarrow> 'a) \<Rightarrow> 'a list \<Rightarrow> 'a list" where
  "update_found P f [] = []"
| "update_found P f (x # xs) = (if P x then f x # xs else x # update_found P f xs)"

subsection \<open>Sorted views\<close>

text \<open>
  \<open>[...xs].sort(cmp)\<close> sorts a copy. \<open>Array.prototype.sort\<close> is stable, and for a consistent
  comparator its result is determined: ascending in the comparator, elements that compare
  equal in their original order. The model computes that result by insertion from the right.
  A comparator that answers \<open>NaN\<close> is read as \<open>+0\<close> by \<open>sort\<close>.
\<close>

fun sort_insert :: "('a \<Rightarrow> 'a \<Rightarrow> int) \<Rightarrow> 'a \<Rightarrow> 'a list \<Rightarrow> 'a list" where
  "sort_insert cmp x [] = [x]"
| "sort_insert cmp x (y # ys) = (if cmp x y \<le> 0 then x # y # ys else y # sort_insert cmp x ys)"

definition array_sort :: "('a \<Rightarrow> 'a \<Rightarrow> int) \<Rightarrow> 'a list \<Rightarrow> 'a list" where
  "array_sort cmp xs = foldr (sort_insert cmp) xs []"

text \<open>
  \<open>loadRanking\<close>: a copy of the events by votes, most votes first, as the items of the
  ranking list. The result is the state it leaves and the list it shows. The comparator is
  the difference of two doubles; the sort reads its sign only, which is the sign of the exact
  difference.
\<close>

definition loadRanking :: "store \<Rightarrow> store \<times> event list" where
  "loadRanking s = (s, array_sort (\<lambda>a b. votes b - votes a) (events s))"

subsection \<open>Voting\<close>

text \<open>
  The selector of the vote buttons of an event, \<open>`.btn-vote[data-event-id="${eventId}"]`\<close>:
  the id goes between the quotes as it is.
\<close>

definition vote_selector :: "jsstring \<Rightarrow> jsstring" where
  "vote_selector eventId = js ''.btn-vote[data-event-id='' @ [0x22] @ eventId @ [0x22] @ js '']''"

text \<open>
  \<open>handleVote\<close>: when the event is found, \<open>event.votes++\<close>, then the new count is written to
  the console, then the vote counters of the page are updated, then the collection is saved
  and the ranking is loaded again. When the update of the counters throws, the handler ends
  there with the exception, which nothing catches: the count is made and logged, and nothing
  is saved. When the event is not found there is no \<open>else\<close>: nothing is changed, shown or
  reported. The handler returns nothing; the second component is the count it writes to the
  console, \<open>None\<close> when it writes none.
\<close>

definition handleVote :: "platform \<Rightarrow> store \<Rightarrow> jsstring \<Rightarrow> store \<times> int option" where
  "handleVote p s eventId =
     (case find_event (events s) eventId of
        Some event \<Rightarrow>
          let s1 = s\<lparr>events := update_found (\<lambda>e. event_id e = eventId)
                                  (\<lambda>e. e\<lparr>votes := increment (votes e)\<rparr>) (events s)\<rparr>
          in if counters_updated p (vote_selector eventId)
             then (fst (loadRanking (saveEventsToLocalStorage s1)), Some (increment (votes event)))
             else (s1, Some (increment (votes event)))
      | None \<Rightarrow> (s, None))"

text \<open>\<open>n\<close> clicks on the vote button of one event, one after the other.\<close>

fun handleVote_times :: "nat \<Rightarrow> platform \<Rightarrow> store \<Rightarrow> jsstring \<Rightarrow> store" where
  "handleVote_times 0 p s eventId = s"
| "handleVote_times (Suc n) p s eventId =
     fst (handleVote p (handleVote_times n p s eventId) eventId)"

subsection \<open>The comments of an event\<close>

text \<open>
  \<open>new Date(x) - new Date(y)\<close>: the difference of the time values, \<open>NaN\<close> when one of the
  strings is no date, which the sort reads as \<open>+0\<close>. \<open>tv\<close> is the platform's \<open>time_value\<close>.
\<close>

definition date_minus :: "(jsstring \<Rightarrow> int option) \<Rightarrow> jsstring \<Rightarrow> jsstring \<Rightarrow> int" where
  "date_minus tv x y = (case (tv x, tv y) of (Some a, Some b) \<Rightarrow> a - b | _ \<Rightarrow> 0)"

text \<open>
  The time value of date strings, for concrete runs. A string of the form
  \<open>YYYY-MM-DDTHH:mm:ssZ\<close> (the example comments) or \<open>YYYY-MM-DDTHH:mm:ss.sssZ\<close> (what
  \<open>toISOString\<close> writes) whose fields are in range (a day of the month, a time of day up to
  \<open>24:00:00\<close>) has the time value that the standard gives it, in milliseconds since
  1970-01-01T00:00:00Z. Every other string is left to \<open>other\<close>: the further forms of the
  standard, and whatever the engine reads by its own rules, such as a day past the end of the
  month or another number of digits in the milliseconds.
\<close>

definition digit_of :: "16 word \<Rightarrow> nat option" where
  "digit_of c = (if 0x30 \<le> c \<and> c \<le> 0x39 then Some (unat c - 48) else None)"

fun number_of :: "nat \<Rightarrow> jsstring \<Rightarrow> nat option" where
  "number_of acc [] = Some acc"
| "number_of acc (c # cs) =
     (case digit_of c of None \<Rightarrow> None | Some d \<Rightarrow> number_of (10 * acc + d) cs)"

definition days_in_month :: "nat \<Rightarrow> nat \<Rightarrow> nat" where
  "days_in_month y m =
     (if m = 2 then (if y mod 4 = 0 \<and> (y mod 100 \<noteq> 0 \<or> y mod 400 = 0) then 29 else 28)
      else if m = 4 \<or> m = 6 \<or> m = 9 \<or> m = 11 then 30 else 31)"

definition days_from_epoch :: "nat \<Rightarrow> nat \<Rightarrow> nat \<Rightarrow> int" where
  "days_from_epoch y m d =
     (let y1 = (if m \<le> 2 then int y - 1 else int y);
          era = y1 div 400;
          yoe = y1 - era * 400;
          mp = (if m > 2 then int m - 3 else int m + 9);
          doy = (153 * mp + 2) div 5 + int d - 1;
          doe = yoe * 365 + yoe div 4 - yoe div 100 + doy
      in era * 146097 + doe - 719468)"

definition iso_time_value :: "(jsstring \<Rightarrow> int option) \<Rightarrow> jsstring \<Rightarrow> int option" where
  "iso_time_value other s =
     (if (length s = 20 \<or> length s = 24 \<and> s ! 19 = 0x2E)
         \<and> s ! 4 = 0x2D \<and> s ! 7 = 0x2D \<and> s ! 10 = 0x54 \<and> s ! 13 = 0x3A \<and> s ! 16 = 0x3A
         \<and> last s = 0x5A
      then
        Option.bind (number_of 0 (take 4 s)) (\<lambda>y.
        Option.bind (number_of 0 (take 2 (drop 5 s))) (\<lambda>mo.
        Option.bind (number_of 0 (take 2 (drop 8 s))) (\<lambda>d.
        Option.bind (number_of 0 (take 2 (drop 11 s))) (\<lambda>h.
        Option.bind (number_of 0 (take 2 (drop 14 s))) (\<lambda>mi.
        Option.bind (number_of 0 (take 2 (drop 17 s))) (\<lambda>sec.
        Option.bind (number_of 0 (take (length s - 21) (drop 20 s))) (\<lambda>ms.
          if 1 \<le> mo \<and> mo \<le> 12 \<and> 1 \<le> d \<and> d \<le> days_in_month y mo
             \<and> (h \<le> 23 \<and> mi \<le> 59 \<and> sec \<le> 59 \<or> h = 24 \<and> mi = 0 \<and> sec = 0 \<and> ms = 0)
          then Some (days_from_epoch y mo d * 86400000
                     + int h * 3600000 + int mi * 60000 + int sec * 1000 + int ms)
          else other s)))))))
      else other s)"

text \<open>
  The comparator of the comments, \<open>(a, b) => new Date(b.date) - new Date(a.date)\<close>, is
  consistent on a list exactly when every date of the list is valid or all differences are
  zero (no date is valid, or the valid ones are one and the same instant): an invalid date
  compares equal to every date, so with two different valid dates beside it equality is not
  transitive.
\<close>

definition comparator_consistent :: "(jsstring \<Rightarrow> int option) \<Rightarrow> comment list \<Rightarrow> bool" where
  "comparator_consistent tv cs \<longleftrightarrow>
     list_all (\<lambda>c. tv (comment_date c) \<noteq> None) cs
     \<or> list_all (\<lambda>a. list_all (\<lambda>b. date_minus tv (comment_date b) (comment_date a) = 0) cs) cs"

text \<open>
  \<open>renderComments\<close>: the comments as listed on the page, most recent first; no items when
  there is no comment. Where the comparator is not consistent the order is the engine's.
\<close>

definition renderComments :: "platform \<Rightarrow> comment list \<Rightarrow> comment list" where
  "renderComments p cs =
     (if cs = [] then []
      else if comparator_consistent (time_value p) cs
      then array_sort (\<lambda>a b. date_minus (time_value p) (comment_date b) (comment_date a)) cs
      else engine_order p cs)"

subsection \<open>The detail view and its comment form\<close>

text \<open>
  \<open>loadEventDetail\<close> shows the message \<open>'Evento no encontrado. ...'\<close> when no event has the
  id, and otherwise the event with its comments and a comment form.
\<close>

datatype detail_view = Evento_no_encontrado | Detail event "comment list"

definition loadEventDetail :: "platform \<Rightarrow> store \<Rightarrow> jsstring \<Rightarrow> detail_view" where
  "loadEventDetail p s eventId =
     (case find_event (events s) eventId of
        None \<Rightarrow> Evento_no_encontrado
      | Some event \<Rightarrow> Detail event (renderComments p (comments event)))"

text \<open>
  The submit handler of the comment form belongs to the detail view of one event: it holds
  the object that \<open>loadEventDetail\<close> found, which stays the first event with that id because
  ids never change and events are only appended. When the event was not found there is no
  form to submit. \<open>authorValue\<close> and \<open>textValue\<close> are the values of the two fields and \<open>now\<close> is
  \<open>new Date().toISOString()\<close>. The result is what the page shows: the not-found message of
  the view, the error message \<open>'Por favor, completa tu nombre y comentario.'\<close>, or the success
  message with the comments rendered again.
\<close>

datatype comment_result = No_form | Completa_nombre_y_comentario | Comentario_anadido "comment list"

definition commentForm_submit ::
  "platform \<Rightarrow> store \<Rightarrow> jsstring \<Rightarrow> jsstring \<Rightarrow> jsstring \<Rightarrow> jsstring
     \<Rightarrow> store \<times> comment_result" where
  "commentForm_submit p s eventId authorValue textValue now =
     (case find_event (events s) eventId of
        None \<Rightarrow> (s, No_form)
      | Some event \<Rightarrow>
          let author = trim authorValue; text = trim textValue in
          if author \<noteq> [] \<and> text \<noteq> [] then
            let newComment = \<lparr>comment_author = author, comment_text = text, comment_date = now\<rparr>;
                s1 = s\<lparr>events := update_found (\<lambda>e. event_id e = eventId)
                                    (\<lambda>e. e\<lparr>comments := comments e @ [newComment]\<rparr>) (events s)\<rparr>
            in (saveEventsToLocalStorage s1,
                Comentario_anadido (renderComments p (comments event @ [newComment])))
          else (s, Completa_nombre_y_comentario))"

subsection \<open>Validation of a form field\<close>

text \<open>
  What \<open>validateField\<close> reads of an input element: its value, its \<open>type\<close>, its \<open>tagName\<close>
  and the answer of the browser's \<open>checkValidity()\<close>. The rules object has the optional
  properties \<open>required\<close>, \<open>minLength\<close> and \<open>maxLength\<close>; an absent bound is \<open>None\<close>, and a
  bound is tested for truthiness before it is used, so a bound of 0 is no bound.
\<close>

record input_element =
  el_value :: jsstring
  el_type :: string
  el_tagName :: string
  el_checkValidity :: bool

record validation_rules =
  required :: bool
  minLength :: "nat option"
  maxLength :: "nat option"

text \<open>
  The messages, in the order of the rules: \<open>'Este campo es obligatorio.'\<close>,
  \<open>'Debe tener al menos n caracteres.'\<close>, \<open>'No debe exceder n caracteres.'\<close>,
  \<open>'Introduce un email valido.'\<close>, \<open>'Introduce una URL valida.'\<close>,
  \<open>'Por favor, selecciona una opcion.'\<close>, \<open>'Introduce una fecha valida.'\<close> (written here without
  their accents).
\<close>

datatype field_message =
    Campo_obligatorio
  | Al_menos nat
  | No_exceder nat
  | Email_valido
  | URL_valida
  | Selecciona_opcion
  | Fecha_valida

text \<open>
  \<open>validateField\<close> answers \<open>isValid\<close> and writes the message of the first rule that fails to
  the error element of the field: \<open>None\<close> is \<open>isValid = true\<close>, \<open>Some m\<close> is \<open>false\<close> with the
  message \<open>m\<close> shown.
\<close>

definition validateField :: "input_element \<Rightarrow> validation_rules \<Rightarrow> field_message option" where
  "validateField inputElement validationRules =
     (let v = trim (el_value inputElement) in
      if required validationRules \<and> v = [] then Some Campo_obligatorio
      else case (case minLength validationRules of
                   Some m \<Rightarrow> if m \<noteq> 0 \<and> length v < m then Some (Al_menos m) else None
                 | None \<Rightarrow> None) of
        Some msg \<Rightarrow> Some msg
      | None \<Rightarrow>
      case (case maxLength validationRules of
              Some m \<Rightarrow> if m \<noteq> 0 \<and> length v > m then Some (No_exceder m) else None
            | None \<Rightarrow> None) of
        Some msg \<Rightarrow> Some msg
      | None \<Rightarrow>
      if el_type inputElement = ''email'' \<and> \<not> el_checkValidity inputElement then Some Email_valido
      else if el_type inputElement = ''url'' \<and> v \<noteq> [] \<and> \<not> el_checkValidity inputElement
        then Some URL_valida
      else if el_tagName inputElement = ''SELECT'' \<and> v = [] then Some Selecciona_opcion
      else if el_type inputElement = ''date'' \<and> \<not> el_checkValidity inputElement
        then Some Fecha_valida
      else None)"

subsection \<open>Creating an event\<close>

text \<open>
  The fields of the create-event form: the id of the element, the name of the property, the
  rules.
\<close>

definition fields :: "(string \<times> string \<times> validation_rules) list" where
  "fields =
     [(''event-title'', ''title'', \<lparr>required = True, minLength = Some 5, maxLength = Some 100\<rparr>),
      (''event-description'', ''description'',
         \<lparr>required = True, minLength = Some 20, maxLength = None\<rparr>),
      (''event-date'', ''date'', \<lparr>required = True, minLength = None, maxLength = None\<rparr>),
      (''event-image'', ''imageUrl'', \<lparr>required = False, minLength = None, maxLength = None\<rparr>),
      (''event-category'', ''category'', \<lparr>required = True, minLength = None, maxLength = None\<rparr>)]"

text \<open>
  The loop over the fields validates every field, whatever the earlier ones gave, and stores
  the trimmed value of each under its name. \<open>form_errors\<close> is what the loop leaves in the
  error elements: the message of each invalid field, under the name of the field.
  \<open>formIsValid\<close> stays true when no call of \<open>validateField\<close> answered false. \<open>page\<close> gives the
  element of each id. The page itself is not part of the script: the model is of a page that
  has the five elements and, for each, the error element \<open>#error-\<close> with the name of the
  field, which the handler writes to without a test.
\<close>

definition form_errors :: "(string \<Rightarrow> input_element) \<Rightarrow> (string \<times> field_message) list" where
  "form_errors page =
     concat (map (\<lambda>(fid, name, rules).
                    case validateField (page fid) rules of
                      None \<Rightarrow> []
                    | Some msg \<Rightarrow> [(name, msg)]) fields)"

definition formIsValid :: "(string \<Rightarrow> input_element) \<Rightarrow> bool" where
  "formIsValid page = list_all (\<lambda>(fid, name, rules). validateField (page fid) rules = None) fields"

definition eventData :: "(string \<Rightarrow> input_element) \<Rightarrow> string \<Rightarrow> jsstring" where
  "eventData page name =
     (case map_of (map (\<lambda>(fid, name, rules). (name, trim (el_value (page fid)))) fields) name of
        Some v \<Rightarrow> v
      | None \<Rightarrow> [])"

text \<open>A page, given by the five elements of the form.\<close>

definition form_page ::
  "input_element \<Rightarrow> input_element \<Rightarrow> input_element \<Rightarrow> input_element \<Rightarrow> input_element
     \<Rightarrow> string \<Rightarrow> input_element" where
  "form_page el_title el_description el_date el_image el_category fid =
     (if fid = ''event-title'' then el_title
      else if fid = ''event-description'' then el_description
      else if fid = ''event-date'' then el_date
      else if fid = ''event-image'' then el_image
      else el_category)"

text \<open>
  The submit handler of the form. \<open>now\<close> is \<open>Date.now()\<close> and \<open>rnd\<close> is
  \<open>Math.random().toString(36).substring(2, 9)\<close>. The result is what the handler reports: the
  messages of the invalid fields, under the general message \<open>'Por favor, corrige los errores
  en el formulario.'\<close>, or the new event, which it writes to the console, under \<open>'Evento
  creado exitosamente!'\<close>. A clock reading is an integer of at most 16 digits, which a
  template literal prints in full.
\<close>

datatype create_result = Corrige_los_errores "(string \<times> field_message) list" | Evento_creado event

definition new_event_id :: "int \<Rightarrow> jsstring \<Rightarrow> jsstring" where
  "new_event_id now rnd = js ''event-'' @ int_to_string now @ js ''-'' @ rnd"

definition createEventForm_submit ::
  "store \<Rightarrow> (string \<Rightarrow> input_element) \<Rightarrow> int \<Rightarrow> jsstring \<Rightarrow> store \<times> create_result" where
  "createEventForm_submit s page now rnd =
     (if formIsValid page then
        let newEvent =
              \<lparr>event_id = new_event_id now rnd,
               title = eventData page ''title'',
               description = eventData page ''description'',
               imageUrl = (if eventData page ''imageUrl'' = []
                           then js ''public/images/event-placeholder.jpg''
                           else eventData page ''imageUrl''),
               votes = 0,
               category = eventData page ''category'',
               date = eventData page ''date'',
               comments = []\<rparr>;
            s1 = s\<lparr>events := events s @ [newEvent]\<rparr>
        in (saveEventsToLocalStorage s1, Evento_creado newEvent)
      else (s, Corrige_los_errores (form_errors page)))"

subsection \<open>The example events and the start of the page\<close>

text \<open>
  The array literal that \<open>events\<close> is declared with, one constant for each of its five
  objects.
\<close>

definition seed_event_1 :: event where
  "seed_event_1 =
     \<lparr>event_id = js ''1'',
      title = js ''Conferencia de Inteligencia Artificial 2025'',
      description =
        js (''Explorando los '' @ [CHR 0xFA] @ ''ltimos avances en inteligencia artificial, machine learning y el futuro de la automatizaci'' @ [CHR 0xF3] @ ''n. '' @ [CHR 0xDA] @ ''nete a expertos de la industria.''),
      imageUrl = js ''PROYECTO/Imagenes/Conferencia_ai.jpg'',
      votes = 120,
      category = js ''tecnologia'',
      date = js ''2025-07-15'',
      comments = [
        \<lparr>comment_author = js ''Juan Perez'',
          comment_text = js ([CHR 0xA1] @ ''Muy emocionado por esta conferencia!''),
          comment_date = js ''2025-05-18T10:00:00Z''\<rparr>,
        \<lparr>comment_author = js ''Maria Gomez'',
          comment_text = js (''Espero que haya sesiones sobre IA '' @ [CHR 0xE9] @ ''tica.''),
          comment_date = js ''2025-05-18T11:30:00Z''\<rparr>]\<rparr>"

definition seed_event_2 :: event where
  "seed_event_2 =
     \<lparr>event_id = js ''2'',
      title = js (''Festival de M'' @ [CHR 0xFA] @ ''sica en el Parque''),
      description =
        js (''Un fin de semana lleno de los mejores artistas de la escena independiente local e internacional. Habr'' @ [CHR 0xE1] @ '' food trucks y actividades recreativas.''),
      imageUrl = js ''PROYECTO/Imagenes/Fiesta.jpeg'',
      votes = 85,
      category = js ''musica'',
      date = js ''2025-08-22'',
      comments = []\<rparr>"

definition seed_event_3 :: event where
  "seed_event_3 =
     \<lparr>event_id = js ''3'',
      title = js (''Exposici'' @ [CHR 0xF3] @ ''n de Arte Moderno: '' @ [CHR 0x22] @ ''Formas del Silencio'' @ [CHR 0x22]),
      description =
        js (''Una colecci'' @ [CHR 0xF3] @ ''n curada de obras de arte contempor'' @ [CHR 0xE1] @ ''neo de artistas emergentes. Explora la expresi'' @ [CHR 0xF3] @ ''n a trav'' @ [CHR 0xE9] @ ''s de diversas t'' @ [CHR 0xE9] @ ''cnicas y medios.''),
      imageUrl = js ''PROYECTO/Imagenes/Arte.jpg'',
      votes = 95,
      category = js ''arte'',
      date = js ''2025-09-05'',
      comments = [
        \<lparr>comment_author = js ''Carlos Lopez'',
          comment_text = js ([CHR 0xA1] @ ''Impresionante exhibici'' @ [CHR 0xF3] @ ''n! Me encant'' @ [CHR 0xF3] @ '' la secci'' @ [CHR 0xF3] @ ''n de escultura.''),
          comment_date = js ''2025-05-17T15:00:00Z''\<rparr>]\<rparr>"

definition seed_event_4 :: event where
  "seed_event_4 =
     \<lparr>event_id = js ''4'',
      title = js ''Carrera 10KM Ciudad Saludable'',
      description =
        js ([CHR 0xDA] @ ''nete a la carrera anual por las calles de la ciudad, promoviendo la salud y el bienestar. Abierta a corredores de todos los niveles.''),
      imageUrl = js ''PROYECTO/Imagenes/10KM.webp'',
      votes = 60,
      category = js ''deporte'',
      date = js ''2025-10-10'',
      comments = []\<rparr>"

definition seed_event_5 :: event where
  "seed_event_5 =
     \<lparr>event_id = js ''5'',
      title = js (''Taller de Fotograf'' @ [CHR 0xED] @ ''a Urbana''),
      description =
        js (''Aprende t'' @ [CHR 0xE9] @ ''cnicas de fotograf'' @ [CHR 0xED] @ ''a callejera con un fot'' @ [CHR 0xF3] @ ''grafo profesional. Exploraremos los rincones m'' @ [CHR 0xE1] @ ''s fotog'' @ [CHR 0xE9] @ ''nicos de la ciudad.''),
      imageUrl = js ''PROYECTO/Imagenes/FotografiaUrbana.jpg'',
      votes = 75,
      category = js ''arte'',
      date = js ''2025-07-20'',
      comments = []\<rparr>"

definition seed_events :: "event list" where
  "seed_events = [seed_event_1, seed_event_2, seed_event_3, seed_event_4, seed_event_5]"

text \<open>
  When the script has run its top level, \<open>events\<close> holds the examples and local storage is
  what the browser kept from earlier visits.
\<close>

definition script_loaded :: "(string \<rightharpoonup> json) \<Rightarrow> store" where
  "script_loaded ls = \<lparr>events = seed_events, localStorage = ls\<rparr>"

text \<open>
  The part of the \<open>DOMContentLoaded\<close> handler that loads the events: a stored document
  replaces the examples, and with nothing stored the examples are saved. A stored document
  that is no collection of events leaves the typed model, which is the error here.
\<close>

datatype load_error = Not_an_event_collection

definition DOMContentLoaded :: "store \<Rightarrow> load_error + store" where
  "DOMContentLoaded s =
     (case localStorage s ''events'' of
        Some storedEvents \<Rightarrow>
          (case JSON_parse storedEvents of
             Some es \<Rightarrow> Inr (s\<lparr>events := es\<rparr>)
           | None \<Rightarrow> Inl Not_an_event_collection)
      | None \<Rightarrow> Inr (saveEventsToLocalStorage s))"

subsection \<open>Concrete runs\<close>

text \<open>
  Two fillings of the create-event form, on a page whose title is a text input, whose
  description is a text area, whose date is a date input, whose image is a URL input and whose
  category is a select: one that passes every rule, with a title of five code units between
  blanks and no image, and one with a title of four code units and no date.
\<close>

definition filled_form :: "string \<Rightarrow> input_element" where
  "filled_form =
     form_page
       \<lparr>el_value = js '' Feria '', el_type = ''text'', el_tagName = ''INPUT'',
          el_checkValidity = True\<rparr>
       \<lparr>el_value = js ''Una feria para leer mucho'', el_type = ''textarea'',
          el_tagName = ''TEXTAREA'', el_checkValidity = True\<rparr>
       \<lparr>el_value = js ''2026-03-01'', el_type = ''date'', el_tagName = ''INPUT'',
          el_checkValidity = True\<rparr>
       \<lparr>el_value = [], el_type = ''url'', el_tagName = ''INPUT'',
          el_checkValidity = True\<rparr>
       \<lparr>el_value = js ''arte'', el_type = ''select-one'', el_tagName = ''SELECT'',
          el_checkValidity = True\<rparr>"

definition short_title_form :: "string \<Rightarrow> input_element" where
  "short_title_form =
     form_page
       \<lparr>el_value = js ''Cine'', el_type = ''text'', el_tagName = ''INPUT'',
          el_checkValidity = True\<rparr>
       \<lparr>el_value = js ''Una noche de cine al aire libre'', el_type = ''textarea'',
          el_tagName = ''TEXTAREA'', el_checkValidity = True\<rparr>
       \<lparr>el_value = [], el_type = ''date'', el_tagName = ''INPUT'',
          el_checkValidity = False\<rparr>
       \<lparr>el_value = [], el_type = ''url'', el_tagName = ''INPUT'',
          el_checkValidity = True\<rparr>
       \<lparr>el_value = js ''arte'', el_type = ''select-one'', el_tagName = ''SELECT'',
          el_checkValidity = True\<rparr>"

text \<open>
  The event that the first filling makes when the clock reads 1767225600000 and the random
  fragment is \<open>'k3j9x2a'\<close>.
\<close>

definition feria_event :: event where
  "feria_event =
     \<lparr>event_id = js ''event-1767225600000-k3j9x2a'',
      title = js ''Feria'',
      description = js ''Una feria para leer mucho'',
      imageUrl = js ''public/images/event-placeholder.jpg'',
      votes = 0,
      category = js ''arte'',
      date = js ''2026-03-01'',
      comments = []\<rparr>"

text \<open>
  The update of the vote counters, for concrete runs, on a page whose vote buttons are the
  ones that the script renders, each after the element with its count. For the selector of
  an id without a quote and without a backslash the answer is the same in every engine: the
  id is the text of a CSS string, which no line feed, form feed or carriage return may
  break, so that \<open>querySelectorAll\<close> throws on an id that holds one and finds the buttons of
  the event otherwise. Every other selector is left to \<open>other\<close>.
\<close>

definition selector_value :: "jsstring \<Rightarrow> jsstring option" where
  "selector_value sel =
     (let pre = js ''.btn-vote[data-event-id='' @ [0x22]; n = length sel
      in if length pre + 2 \<le> n \<and> take (length pre) sel = pre \<and> drop (n - 2) sel = [0x22, 0x5D]
         then Some (take (n - length pre - 2) (drop (length pre) sel))
         else None)"

definition update_of_counters :: "(jsstring \<Rightarrow> bool) \<Rightarrow> jsstring \<Rightarrow> bool" where
  "update_of_counters other sel =
     (case selector_value sel of
        Some x \<Rightarrow>
          if list_all (\<lambda>c. c \<noteq> 0x22 \<and> c \<noteq> 0x5C) x
          then list_all (\<lambda>c. c \<noteq> 0x0A \<and> c \<noteq> 0x0C \<and> c \<noteq> 0x0D) x
          else other sel
      | None \<Rightarrow> other sel)"

text \<open>
  The platform of the concrete runs. Where the definitions above leave the answer to the
  engine, this one reads no date, leaves the order as it is and throws; the runs do not get
  there.
\<close>

definition run_platform :: platform where
  "run_platform =
     \<lparr>time_value = iso_time_value (\<lambda>s. None),
      engine_order = (\<lambda>cs. cs),
      counters_updated = update_of_counters (\<lambda>sel. False)\<rparr>"




section \<open>Properties of the event store\<close>

subsection \<open>Looking up and changing the first event with an id\<close>

lemma find_event_Some_iff:
  "find_event es i = Some e \<longleftrightarrow>
     (\<exists>pre post. es = pre @ e # post \<and> event_id e = i \<and> (\<forall>x\<in>set pre. event_id x \<noteq> i))"
proof (induction es)
  case Nil
  show ?case by (simp add: find_event_def)
next
  case (Cons a es)
  show ?case
  proof (cases "event_id a = i")
    case True
    have "(\<exists>pre post. a # es = pre @ e # post \<and> event_id e = i \<and> (\<forall>x\<in>set pre. event_id x \<noteq> i))
          \<longleftrightarrow> e = a"
    proof
      assume "\<exists>pre post. a # es = pre @ e # post \<and> event_id e = i \<and> (\<forall>x\<in>set pre. event_id x \<noteq> i)"
      then obtain pre post where h: "a # es = pre @ e # post" "\<forall>x\<in>set pre. event_id x \<noteq> i"
        by blast
      show "e = a"
      proof (cases pre)
        case Nil
        with h show ?thesis by simp
      next
        case (Cons p ps)
        with h True show ?thesis by auto
      qed
    next
      assume "e = a"
      with True have "a # es = [] @ e # es \<and> event_id e = i \<and> (\<forall>x\<in>set []. event_id x \<noteq> i)"
        by simp
      then show "\<exists>pre post. a # es = pre @ e # post \<and> event_id e = i \<and> (\<forall>x\<in>set pre. event_id x \<noteq> i)"
        by blast
    qed
    with True show ?thesis by (auto simp: find_event_def)
  next
    case False
    have "(\<exists>pre post. a # es = pre @ e # post \<and> event_id e = i \<and> (\<forall>x\<in>set pre. event_id x \<noteq> i))
          \<longleftrightarrow> (\<exists>pre post. es = pre @ e # post \<and> event_id e = i \<and> (\<forall>x\<in>set pre. event_id x \<noteq> i))"
      (is "?L \<longleftrightarrow> ?R")
    proof
      assume ?L
      then obtain pre post where h: "a # es = pre @ e # post" "event_id e = i"
        "\<forall>x\<in>set pre. event_id x \<noteq> i" by blast
      show ?R
      proof (cases pre)
        case Nil
        with h False show ?thesis by simp
      next
        case (Cons p ps)
        with h have "es = ps @ e # post \<and> event_id e = i \<and> (\<forall>x\<in>set ps. event_id x \<noteq> i)" by simp
        then show ?thesis by blast
      qed
    next
      assume ?R
      then obtain pre post where h: "es = pre @ e # post" "event_id e = i"
        "\<forall>x\<in>set pre. event_id x \<noteq> i" by blast
      with False have "a # es = (a # pre) @ e # post \<and> event_id e = i \<and> (\<forall>x\<in>set (a # pre). event_id x \<noteq> i)"
        by simp
      then show ?L by blast
    qed
    with False Cons.IH show ?thesis by (simp add: find_event_def)
  qed
qed

lemma find_event_None_iff: "find_event es i = None \<longleftrightarrow> (\<forall>e\<in>set es. event_id e \<noteq> i)"
  by (auto simp: find_event_def find_None_iff)

lemma find_event_distinct:
  "distinct (map event_id es) \<Longrightarrow> e \<in> set es \<Longrightarrow> find_event es (event_id e) = Some e"
  by (induction es) (auto simp: find_event_def)

lemma find_event_SomeD: "find_event es i = Some e \<Longrightarrow> e \<in> set es \<and> event_id e = i"
  by (induction es) (auto simp: find_event_def split: if_splits)

lemma update_found_split:
  "(\<forall>x\<in>set pre. \<not> P x) \<Longrightarrow> P e \<Longrightarrow> update_found P f (pre @ e # post) = pre @ f e # post"
  by (induction pre) auto

lemma update_found_none: "(\<forall>x\<in>set xs. \<not> P x) \<Longrightarrow> update_found P f xs = xs"
  by (induction xs) auto

lemma length_update_found [simp]: "length (update_found P f xs) = length xs"
  by (induction xs) auto

lemma update_found_distinct_ids:
  "distinct (map event_id es) \<Longrightarrow> (\<And>e. event_id (f e) = event_id e) \<Longrightarrow>
   update_found (\<lambda>e. event_id e = i) f es = map (\<lambda>e. if event_id e = i then f e else e) es"
proof (induction es)
  case Nil
  show ?case by simp
next
  case (Cons a es)
  show ?case
  proof (cases "event_id a = i")
    case True
    from Cons.prems(1) have "event_id a \<notin> event_id ` set es" by simp
    with True have "\<forall>e\<in>set es. event_id e \<noteq> i" by blast
    then have "map (\<lambda>e. if event_id e = i then f e else e) es = es"
      by (simp add: map_idI)
    with True show ?thesis by simp
  next
    case False
    with Cons show ?thesis by simp
  qed
qed

lemma map_event_id_update_found:
  "(\<And>e. event_id (f e) = event_id e) \<Longrightarrow> map event_id (update_found P f es) = map event_id es"
  by (induction es) auto

subsection \<open>Saving and parsing back\<close>

lemma those_map_inverse: "(\<And>x. f (g x) = Some x) \<Longrightarrow> those (map (f \<circ> g) xs) = Some xs"
  by (induction xs) simp_all

lemma comment_of_json_inverse: "comment_of_json (json_of_comment c) = Some c"
  by (simp add: comment_of_json_def json_of_comment_def str_prop_def)

lemma event_of_json_inverse: "event_of_json (json_of_event e) = Some e"
  by (simp add: event_of_json_def json_of_event_def str_prop_def num_prop_def arr_prop_def
      those_map_inverse [of comment_of_json json_of_comment, OF comment_of_json_inverse])

lemma JSON_parse_stringify: "JSON_parse (JSON_stringify es) = Some es"
  by (simp add: JSON_parse_def JSON_stringify_def
      those_map_inverse [of event_of_json json_of_event, OF event_of_json_inverse])

lemma events_save [simp]: "events (saveEventsToLocalStorage s) = events s"
  by (simp add: saveEventsToLocalStorage_def)

lemma mirror_save [simp]:
  "localStorage (saveEventsToLocalStorage s) ''events'' = Some (JSON_stringify (events s))"
  by (simp add: saveEventsToLocalStorage_def)

lemma fst_loadRanking [simp]: "fst (loadRanking s) = s"
  by (simp add: loadRanking_def)

lemma handleVote_found:
  "find_event (events s) i = Some e \<Longrightarrow> counters_updated p (vote_selector i) \<Longrightarrow>
   handleVote p s i =
     (saveEventsToLocalStorage
        (s\<lparr>events := update_found (\<lambda>x. event_id x = i) (\<lambda>x. x\<lparr>votes := increment (votes x)\<rparr>)
                      (events s)\<rparr>),
      Some (increment (votes e)))"
  by (simp add: handleVote_def)


lemma handleVote_not_found: "find_event (events s) i = None \<Longrightarrow> handleVote p s i = (s, None)"
  by (simp add: handleVote_def)


lemma increment_stays: "increment (2 ^ 53) = 2 ^ 53"
  by (simp add: increment_def)

subsection \<open>Votes\<close>






lemma seed_ids: "map event_id seed_events = [js ''1'', js ''2'', js ''3'', js ''4'', js ''5'']"
  by (simp add: seed_events_def seed_event_1_def seed_event_2_def seed_event_3_def
      seed_event_4_def seed_event_5_def)

lemma seed_votes: "map votes seed_events = [120, 85, 95, 60, 75]"
  by (simp add: seed_events_def seed_event_1_def seed_event_2_def seed_event_3_def
      seed_event_4_def seed_event_5_def)

lemma seed_ids_distinct: "distinct (map event_id seed_events)"
  by (simp add: seed_ids js_def)

lemma seed_ids_set: "event_id ` set seed_events = {js ''1'', js ''2'', js ''3'', js ''4'', js ''5''}"
  using arg_cong [OF seed_ids, of set] by simp








subsection \<open>Lookup, and ids that no event has\<close>

lemma nonexistent_id_not_seed: "\<forall>E\<in>set seed_events. event_id E \<noteq> js ''nonexistent-id''"
proof -
  have "js ''nonexistent-id'' \<notin> event_id ` set seed_events"
    by (simp add: seed_ids_set js_def)
  then show ?thesis by (metis imageI)
qed

text \<open>
  C8. In a collection whose ids are pairwise distinct, looking up the id of an event of the
  collection gives that very event. In any collection the lookup gives the first event with
  the id, in the order of the array, and for an id that no event has it gives nothing, which
  the detail view reports as not found.
\<close>

theorem FindByID_returns_the_event:
  "(distinct (map event_id es) \<longrightarrow> (\<forall>E\<in>set es. find_event es (event_id E) = Some E))
   \<and> (\<forall>E. find_event es i = Some E \<longleftrightarrow>
          (\<exists>pre post. es = pre @ E # post \<and> event_id E = i \<and> (\<forall>x\<in>set pre. event_id x \<noteq> i)))
   \<and> ((\<forall>E\<in>set es. event_id E \<noteq> i) \<longrightarrow>
          find_event es i = None
          \<and> loadEventDetail p \<lparr>events = es, localStorage = ls\<rparr> i = Evento_no_encontrado)"
proof (intro conjI impI allI ballI)
  fix E
  assume "distinct (map event_id es)" and "E \<in> set es"
  then show "find_event es (event_id E) = Some E" by (rule find_event_distinct)
next
  fix E
  show "find_event es i = Some E \<longleftrightarrow>
          (\<exists>pre post. es = pre @ E # post \<and> event_id E = i \<and> (\<forall>x\<in>set pre. event_id x \<noteq> i))"
    by (rule find_event_Some_iff)
next
  assume "\<forall>E\<in>set es. event_id E \<noteq> i"
  then show "find_event es i = None" by (simp add: find_event_None_iff)
next
  assume "\<forall>E\<in>set es. event_id E \<noteq> i"
  then have "find_event es i = None" by (simp add: find_event_None_iff)
  then show "loadEventDetail p \<lparr>events = es, localStorage = ls\<rparr> i = Evento_no_encontrado"
    by (simp add: loadEventDetail_def)
qed

theorem FindByID_returns_the_event_witness:
  "distinct (map event_id seed_events)
   \<and> seed_event_3 \<in> set seed_events
   \<and> find_event seed_events (event_id seed_event_3) = Some seed_event_3
   \<and> js ''nonexistent-id'' \<notin> set (map event_id seed_events)
   \<and> find_event seed_events (js ''nonexistent-id'') = None
   \<and> loadEventDetail run_platform \<lparr>events = seed_events, localStorage = Map.empty\<rparr>
        (js ''nonexistent-id'') = Evento_no_encontrado"
proof -
  have m: "seed_event_3 \<in> set seed_events"
    by (simp add: seed_events_def)
  note t = FindByID_returns_the_event [of seed_events "js ''nonexistent-id''" run_platform Map.empty]
  from t seed_ids_distinct m have "find_event seed_events (event_id seed_event_3) = Some seed_event_3"
    by blast
  moreover from t nonexistent_id_not_seed
  have "find_event seed_events (js ''nonexistent-id'') = None
        \<and> loadEventDetail run_platform \<lparr>events = seed_events, localStorage = Map.empty\<rparr>
             (js ''nonexistent-id'') = Evento_no_encontrado"
    by blast
  moreover have "js ''nonexistent-id'' \<notin> set (map event_id seed_events)"
    by (simp add: seed_ids js_def)
  ultimately show ?thesis
    using seed_ids_distinct m by blast
qed

text \<open>
  C9. A vote for an id that no event of the collection has changes neither the collection nor
  local storage, and shows and reports nothing; so does any number of such votes.
\<close>

theorem Vote_unknown_id_changes_nothing:
  assumes "\<forall>E\<in>set (events s). event_id E \<noteq> i"
  shows "handleVote p s i = (s, None) \<and> (\<forall>n. handleVote_times n p s i = s)"
proof -
  from assms have none: "find_event (events s) i = None"
    by (simp add: find_event_None_iff)
  then have one: "handleVote p s i = (s, None)"
    by (rule handleVote_not_found)
  have "handleVote_times n p s i = s" for n
    by (induction n) (simp_all add: one)
  with one show ?thesis by simp
qed

theorem Vote_unknown_id_changes_nothing_witness:
  "js ''nonexistent-id'' \<notin> set (map event_id (events (script_loaded Map.empty)))
   \<and> handleVote run_platform (script_loaded Map.empty) (js ''nonexistent-id'') = (script_loaded Map.empty, None)
   \<and> handleVote_times 2 run_platform (script_loaded Map.empty) (js ''nonexistent-id'') = script_loaded Map.empty"
proof -
  have h: "\<forall>E\<in>set (events (script_loaded Map.empty)). event_id E \<noteq> js ''nonexistent-id''"
    using nonexistent_id_not_seed by (simp add: script_loaded_def)
  have "js ''nonexistent-id'' \<notin> set (map event_id (events (script_loaded Map.empty)))"
    by (simp add: script_loaded_def seed_ids js_def)
  with Vote_unknown_id_changes_nothing [OF h, of run_platform] show ?thesis by blast
qed

text \<open>
  C10, as the claim states it, fails: a vote for \<open>'nonexistent-id'\<close> on the example events
  ends without any change and without any report.
\<close>

theorem Vote_nonexistent_id_is_silent:
  "handleVote run_platform (script_loaded Map.empty) (js ''nonexistent-id'') = (script_loaded Map.empty, None)"
proof -
  have "find_event (events (script_loaded Map.empty)) (js ''nonexistent-id'') = None"
    using nonexistent_id_not_seed by (simp add: find_event_None_iff script_loaded_def)
  then show ?thesis by (simp add: handleVote_def)
qed

text \<open>
  C10, amended. For an id that no event has, a vote is a silent no-op, by the guard
  \<open>if (event)\<close> of \<open>handleVote\<close>; the detail view shows the message \<open>'Evento no encontrado.
  ...'\<close> and has no comment form, so that no comment is added and nothing is changed.
\<close>

theorem unknown_id_vote_silent_detail_not_found:
  assumes "find_event (events s) i = None"
  shows "handleVote p s i = (s, None)
         \<and> loadEventDetail p s i = Evento_no_encontrado
         \<and> commentForm_submit p s i authorValue textValue now = (s, No_form)"
  using assms by (simp add: handleVote_def loadEventDetail_def commentForm_submit_def)

theorem unknown_id_vote_silent_detail_not_found_witness:
  "find_event (events (script_loaded Map.empty)) (js ''nonexistent-id'') = None
   \<and> handleVote run_platform (script_loaded Map.empty) (js ''nonexistent-id'') = (script_loaded Map.empty, None)
   \<and> loadEventDetail run_platform (script_loaded Map.empty) (js ''nonexistent-id'')
        = Evento_no_encontrado
   \<and> commentForm_submit run_platform (script_loaded Map.empty) (js ''nonexistent-id'')
        (js ''Ann'') (js ''Hi'') (js ''2026-01-01T00:00:00.000Z'')
        = (script_loaded Map.empty, No_form)"
proof -
  have h: "find_event (events (script_loaded Map.empty)) (js ''nonexistent-id'') = None"
    using nonexistent_id_not_seed by (simp add: find_event_None_iff script_loaded_def)
  from unknown_id_vote_silent_detail_not_found [OF h, of run_platform] h show ?thesis by blast
qed

subsection \<open>The mirror in local storage\<close>

lemma commentForm_submit_added:
  assumes "find_event (events s) i = Some e" and "trim a \<noteq> []" and "trim t \<noteq> []"
  shows "commentForm_submit p s i a t now =
     (saveEventsToLocalStorage
        (s\<lparr>events := update_found (\<lambda>x. event_id x = i)
            (\<lambda>x. x\<lparr>comments := comments x
               @ [\<lparr>comment_author = trim a, comment_text = trim t, comment_date = now\<rparr>]\<rparr>)
            (events s)\<rparr>),
      Comentario_anadido (renderComments p (comments e
         @ [\<lparr>comment_author = trim a, comment_text = trim t, comment_date = now\<rparr>])))"
  using assms by (simp add: commentForm_submit_def Let_def)

lemma commentForm_submit_rejected:
  assumes "find_event (events s) i = Some e" and "trim a = [] \<or> trim t = []"
  shows "commentForm_submit p s i a t now = (s, Completa_nombre_y_comentario)"
  using assms by (auto simp: commentForm_submit_def Let_def)

lemma commentForm_submit_no_form:
  assumes "find_event (events s) i = None"
  shows "commentForm_submit p s i a t now = (s, No_form)"
  using assms by (simp add: commentForm_submit_def)

lemma commentForm_submit_cases:
  "(\<exists>e. find_event (events s) i = Some e \<and> trim a \<noteq> [] \<and> trim t \<noteq> [] \<and>
        commentForm_submit p s i a t now =
          (saveEventsToLocalStorage
             (s\<lparr>events := update_found (\<lambda>x. event_id x = i)
                 (\<lambda>x. x\<lparr>comments := comments x
                    @ [\<lparr>comment_author = trim a, comment_text = trim t, comment_date = now\<rparr>]\<rparr>)
                 (events s)\<rparr>),
           Comentario_anadido (renderComments p (comments e
              @ [\<lparr>comment_author = trim a, comment_text = trim t, comment_date = now\<rparr>]))))
   \<or> commentForm_submit p s i a t now = (s, Completa_nombre_y_comentario)
   \<or> commentForm_submit p s i a t now = (s, No_form)"
proof (cases "find_event (events s) i")
  case None
  then show ?thesis by (simp add: commentForm_submit_no_form)
next
  case (Some e)
  show ?thesis
  proof (cases "trim a = [] \<or> trim t = []")
    case True
    with Some show ?thesis by (simp add: commentForm_submit_rejected)
  next
    case False
    with Some show ?thesis by (simp add: commentForm_submit_added)
  qed
qed

lemma createEventForm_submit_invalid:
  "\<not> formIsValid page \<Longrightarrow>
   createEventForm_submit s page now rnd = (s, Corrige_los_errores (form_errors page))"
  by (simp add: createEventForm_submit_def)

lemma createEventForm_submit_valid:
  "formIsValid page \<Longrightarrow>
   \<exists>e. createEventForm_submit s page now rnd =
         (saveEventsToLocalStorage (s\<lparr>events := events s @ [e]\<rparr>), Evento_creado e)"
  by (simp add: createEventForm_submit_def Let_def)

lemma mirror_saved_after_create:
  "\<forall>s' e. createEventForm_submit s page ms rnd = (s', Evento_creado e) \<longrightarrow>
     localStorage s' ''events'' = Some (JSON_stringify (events s'))"
  by (cases "formIsValid page") (auto simp: createEventForm_submit_def Let_def)

text \<open>
  What the three handlers leave in local storage. After a comment that is added and after an
  event that is created, and after a vote when the update of the vote counters ends normally,
  the document stored under \<open>'events'\<close> is the JSON document of the collection in memory,
  and parsing it gives that collection. In every outcome without a change of the collection
  the state is the one before.
\<close>

lemma mirror_saved_after_completed_mutation:
  "(\<forall>s' n. counters_updated p (vote_selector i) \<and> handleVote p s i = (s', Some n) \<longrightarrow>
       localStorage s' ''events'' = Some (JSON_stringify (events s'))
       \<and> Option.bind (localStorage s' ''events'') JSON_parse = Some (events s'))
   \<and> (\<forall>s'. handleVote p s i = (s', None) \<longrightarrow> s' = s)
   \<and> (\<forall>s' cs. commentForm_submit p s i authorValue textValue now = (s', Comentario_anadido cs) \<longrightarrow>
       localStorage s' ''events'' = Some (JSON_stringify (events s'))
       \<and> Option.bind (localStorage s' ''events'') JSON_parse = Some (events s'))
   \<and> (\<forall>s'. commentForm_submit p s i authorValue textValue now = (s', Completa_nombre_y_comentario)
             \<or> commentForm_submit p s i authorValue textValue now = (s', No_form) \<longrightarrow> s' = s)
   \<and> (\<forall>s' e. createEventForm_submit s page ms rnd = (s', Evento_creado e) \<longrightarrow>
       localStorage s' ''events'' = Some (JSON_stringify (events s'))
       \<and> Option.bind (localStorage s' ''events'') JSON_parse = Some (events s'))
   \<and> (\<forall>s' errs. createEventForm_submit s page ms rnd = (s', Corrige_los_errores errs) \<longrightarrow> s' = s)"
proof -
  have vote: "\<forall>s' n. counters_updated p (vote_selector i) \<and> handleVote p s i = (s', Some n) \<longrightarrow>
       localStorage s' ''events'' = Some (JSON_stringify (events s'))
       \<and> Option.bind (localStorage s' ''events'') JSON_parse = Some (events s')"
  proof (cases "find_event (events s) i")
    case None
    then show ?thesis by (simp add: handleVote_not_found)
  next
    case (Some e)
    show ?thesis
    proof (cases "counters_updated p (vote_selector i)")
      case True
      show ?thesis
        by (simp add: handleVote_found [OF Some True] JSON_parse_stringify)
    next
      case False
      then show ?thesis by simp
    qed
  qed
  have vote_none: "\<forall>s'. handleVote p s i = (s', None) \<longrightarrow> s' = s"
    by (cases "find_event (events s) i") (simp_all add: handleVote_def Let_def)
  have comment: "\<forall>s' cs. commentForm_submit p s i authorValue textValue now
         = (s', Comentario_anadido cs) \<longrightarrow>
       localStorage s' ''events'' = Some (JSON_stringify (events s'))
       \<and> Option.bind (localStorage s' ''events'') JSON_parse = Some (events s')"
  proof (cases "find_event (events s) i")
    case None
    then show ?thesis by (simp add: commentForm_submit_no_form)
  next
    case (Some e)
    show ?thesis
    proof (cases "trim authorValue = [] \<or> trim textValue = []")
      case True
      with Some show ?thesis by (simp add: commentForm_submit_rejected)
    next
      case False
      then have "trim authorValue \<noteq> []" and "trim textValue \<noteq> []" by simp_all
      from commentForm_submit_added [OF Some this, of p now] show ?thesis
        by (simp add: JSON_parse_stringify)
    qed
  qed
  have comment_none: "\<forall>s'. commentForm_submit p s i authorValue textValue now
         = (s', Completa_nombre_y_comentario)
       \<or> commentForm_submit p s i authorValue textValue now = (s', No_form) \<longrightarrow> s' = s"
    using commentForm_submit_cases [of s i authorValue textValue p now] by auto
  have create: "\<forall>s' e. createEventForm_submit s page ms rnd = (s', Evento_creado e) \<longrightarrow>
       localStorage s' ''events'' = Some (JSON_stringify (events s'))
       \<and> Option.bind (localStorage s' ''events'') JSON_parse = Some (events s')"
  proof (cases "formIsValid page")
    case True
    from createEventForm_submit_valid [OF True, of s ms rnd]
    obtain e0 where "createEventForm_submit s page ms rnd =
        (saveEventsToLocalStorage (s\<lparr>events := events s @ [e0]\<rparr>), Evento_creado e0)"
      by blast
    then show ?thesis
      by (simp add: JSON_parse_stringify)
  next
    case False
    then show ?thesis by (simp add: createEventForm_submit_invalid)
  qed
  have create_none: "\<forall>s' errs. createEventForm_submit s page ms rnd
       = (s', Corrige_los_errores errs) \<longrightarrow> s' = s"
    by (cases "formIsValid page") (auto simp: createEventForm_submit_def Let_def)
  from vote vote_none comment comment_none create create_none show ?thesis by blast
qed



subsection \<open>Values of the concrete runs\<close>

lemma filled_form_valid: "formIsValid filled_form"
  by (simp add: formIsValid_def fields_def validateField_def filled_form_def form_page_def
      trim_def js_def is_js_space_def)

lemma filled_form_data:
  "eventData filled_form ''title'' = js ''Feria''"
  "eventData filled_form ''description'' = js ''Una feria para leer mucho''"
  "eventData filled_form ''imageUrl'' = []"
  "eventData filled_form ''category'' = js ''arte''"
  "eventData filled_form ''date'' = js ''2026-03-01''"
  by (simp_all add: eventData_def fields_def filled_form_def form_page_def
      trim_def js_def is_js_space_def)

lemma feria_id: "new_event_id 1767225600000 (js ''k3j9x2a'') = js ''event-1767225600000-k3j9x2a''"
  by (simp add: new_event_id_def int_to_string_def nat_digits.simps digit_unit_def js_def)

lemma create_feria:
  "createEventForm_submit s filled_form 1767225600000 (js ''k3j9x2a'') =
     (saveEventsToLocalStorage (s\<lparr>events := events s @ [feria_event]\<rparr>), Evento_creado feria_event)"
  by (simp add: createEventForm_submit_def filled_form_valid filled_form_data feria_id
      feria_event_def Let_def)

lemma short_title_form_errors:
  "form_errors short_title_form = [(''title'', Al_menos 5), (''date'', Campo_obligatorio)]"
  by (simp add: form_errors_def fields_def validateField_def short_title_form_def form_page_def
      trim_def js_def is_js_space_def)

lemma short_title_form_invalid: "\<not> formIsValid short_title_form"
  by (simp add: formIsValid_def fields_def validateField_def short_title_form_def form_page_def
      trim_def js_def is_js_space_def)

lemma find_seed_1: "find_event seed_events (js ''1'') = Some seed_event_1"
  using find_event_distinct [OF seed_ids_distinct, of seed_event_1]
  by (simp add: seed_events_def) (simp add: seed_event_1_def)

lemma find_seed_2: "find_event seed_events (js ''2'') = Some seed_event_2"
  using find_event_distinct [OF seed_ids_distinct, of seed_event_2]
  by (simp add: seed_events_def) (simp add: seed_event_2_def)

lemma trim_Ann: "trim (js '' Ann '') = js ''Ann''"
  by (simp add: trim_def js_def is_js_space_def)

lemma trim_Hi: "trim (js ''Hi'') = js ''Hi''"
  by (simp add: trim_def js_def is_js_space_def)

lemma trim_blanks: "trim (js ''   '') = []"
  by (simp add: trim_def js_def is_js_space_def)

lemma js_nonempty: "js ''Ann'' \<noteq> []" "js ''Hi'' \<noteq> []"
  by (simp_all add: js_def)

subsection \<open>Loading the page again\<close>

text \<open>
  C7. \<open>JSON.parse\<close> of \<open>JSON.stringify\<close> of a collection is that collection. So when the
  document under \<open>'events'\<close> is the one of the collection in memory, as it is after an event
  is created, a page that is loaded with that local storage starts from the examples and ends
  its load in the very state that was left, while a page loaded with nothing under
  \<open>'events'\<close> keeps the examples and saves them.
\<close>

theorem persist_then_reload:
  "JSON_parse (JSON_stringify es) = Some es
   \<and> (localStorage s ''events'' = Some (JSON_stringify (events s)) \<longrightarrow>
        DOMContentLoaded (script_loaded (localStorage s)) = Inr s)
   \<and> (\<forall>s' e. createEventForm_submit s page ms rnd = (s', Evento_creado e) \<longrightarrow>
        DOMContentLoaded (script_loaded (localStorage s')) = Inr s')
   \<and> (ls ''events'' = None \<longrightarrow>
        DOMContentLoaded (script_loaded ls)
          = Inr \<lparr>events = seed_events,
                 localStorage = ls(''events'' \<mapsto> JSON_stringify seed_events)\<rparr>)"
proof -
  have reload: "DOMContentLoaded (script_loaded (localStorage x)) = Inr x"
    if "localStorage x ''events'' = Some (JSON_stringify (events x))" for x
    using that by (simp add: DOMContentLoaded_def script_loaded_def JSON_parse_stringify)
  have created: "\<forall>s' e. createEventForm_submit s page ms rnd = (s', Evento_creado e) \<longrightarrow>
        DOMContentLoaded (script_loaded (localStorage s')) = Inr s'"
  proof (intro allI impI)
    fix s' e
    assume "createEventForm_submit s page ms rnd = (s', Evento_creado e)"
    with mirror_saved_after_create [of s page ms rnd]
    have "localStorage s' ''events'' = Some (JSON_stringify (events s'))" by blast
    then show "DOMContentLoaded (script_loaded (localStorage s')) = Inr s'" by (rule reload)
  qed
  have fresh: "ls ''events'' = None \<longrightarrow>
        DOMContentLoaded (script_loaded ls)
          = Inr \<lparr>events = seed_events,
                 localStorage = ls(''events'' \<mapsto> JSON_stringify seed_events)\<rparr>"
    by (simp add: DOMContentLoaded_def script_loaded_def saveEventsToLocalStorage_def)
  from JSON_parse_stringify reload created fresh show ?thesis by blast
qed

theorem persist_then_reload_witness:
  "createEventForm_submit (script_loaded Map.empty) filled_form 1767225600000 (js ''k3j9x2a'')
     = (\<lparr>events = seed_events @ [feria_event],
         localStorage = [''events'' \<mapsto> JSON_stringify (seed_events @ [feria_event])]\<rparr>,
        Evento_creado feria_event)
   \<and> DOMContentLoaded (script_loaded [''events'' \<mapsto> JSON_stringify (seed_events @ [feria_event])])
     = Inr \<lparr>events = seed_events @ [feria_event],
            localStorage = [''events'' \<mapsto> JSON_stringify (seed_events @ [feria_event])]\<rparr>
   \<and> DOMContentLoaded (script_loaded Map.empty)
     = Inr \<lparr>events = seed_events, localStorage = [''events'' \<mapsto> JSON_stringify seed_events]\<rparr>"
proof -
  let ?s = "script_loaded Map.empty"
  let ?s' = "\<lparr>events = seed_events @ [feria_event],
         localStorage = [''events'' \<mapsto> JSON_stringify (seed_events @ [feria_event])]\<rparr>"
  note t = persist_then_reload [of seed_events ?s filled_form 1767225600000 "js ''k3j9x2a''"
      Map.empty]
  have c: "createEventForm_submit ?s filled_form 1767225600000 (js ''k3j9x2a'')
      = (?s', Evento_creado feria_event)"
    by (simp add: create_feria saveEventsToLocalStorage_def script_loaded_def)
  with t have "DOMContentLoaded (script_loaded (localStorage ?s')) = Inr ?s'"
    by blast
  then have r: "DOMContentLoaded (script_loaded [''events'' \<mapsto> JSON_stringify (seed_events @ [feria_event])])
      = Inr ?s'"
    by simp
  from t have "DOMContentLoaded (script_loaded Map.empty)
     = Inr \<lparr>events = seed_events, localStorage = [''events'' \<mapsto> JSON_stringify seed_events]\<rparr>"
    by simp
  with c r show ?thesis by blast
qed

subsection \<open>The ranking\<close>

lemma sort_insert_descending:
  "sort_insert (\<lambda>a b. f b - f a) x ys = insort_key (\<lambda>e. - f e) x ys"
  by (induction ys) simp_all

lemma array_sort_descending:
  "array_sort (\<lambda>a b. f b - f a) xs = sort_key (\<lambda>e. - f e) xs"
proof -
  have "sort_insert (\<lambda>a b. f b - f a) = insort_key (\<lambda>e. - f e)"
    by (intro ext) (rule sort_insert_descending)
  then show ?thesis by (simp add: array_sort_def sort_key_def)
qed

lemma sorted_wrt_descending:
  "sorted (map (\<lambda>e. - f e) xs) \<longleftrightarrow> sorted_wrt (\<lambda>a b. (f b :: int) \<le> f a) xs"
  by (induction xs) auto

lemma ranking_of_five:
  assumes "map votes es = [120, 85, 95, 60, 75]"
  shows "\<exists>a b c d e. es = [a, b, c, d, e]
           \<and> array_sort (\<lambda>x y. votes y - votes x) es = [a, c, b, e, d]"
proof -
  from assms obtain a b c d e where es: "es = [a, b, c, d, e]"
    and v: "votes a = 120" "votes b = 85" "votes c = 95" "votes d = 60" "votes e = 75"
    by (auto simp: map_eq_Cons_conv)
  have "array_sort (\<lambda>x y. votes y - votes x) [a, b, c, d, e] = [a, c, b, e, d]"
    by (simp add: array_sort_def v)
  with es show ?thesis by blast
qed

text \<open>
  C6. The ranking lists the events of the collection, each as often as it occurs there, with
  votes never increasing along the list, and events with equal votes in the order they have
  in the collection; loading it leaves the state as it is. Events with the votes 120, 85, 95,
  60, 75 are ranked 120, 95, 85, 75, 60.
\<close>

theorem RankedView_descending_stable:
  "fst (loadRanking s) = s
   \<and> mset (snd (loadRanking s)) = mset (events s)
   \<and> sorted_wrt (\<lambda>a b. votes b \<le> votes a) (snd (loadRanking s))
   \<and> (\<forall>v. filter (\<lambda>e. votes e = v) (snd (loadRanking s)) = filter (\<lambda>e. votes e = v) (events s))
   \<and> (map votes (events s) = [120, 85, 95, 60, 75] \<longrightarrow>
        map votes (snd (loadRanking s)) = [120, 95, 85, 75, 60])"
proof -
  have r: "snd (loadRanking s) = sort_key (\<lambda>e. - votes e) (events s)"
    by (simp add: loadRanking_def array_sort_descending)
  have "sorted (map (\<lambda>e. - votes e) (sort_key (\<lambda>e. - votes e) (events s)))"
    by (rule sorted_sort_key)
  then have desc: "sorted_wrt (\<lambda>a b. votes b \<le> votes a) (snd (loadRanking s))"
    by (simp add: r sorted_wrt_descending)
  have stable: "filter (\<lambda>e. votes e = v) (snd (loadRanking s)) = filter (\<lambda>e. votes e = v) (events s)"
    for v
    using sort_key_stable [of "\<lambda>e. - votes e" "- v" "events s"] by (simp add: r)
  have five: "map votes (events s) = [120, 85, 95, 60, 75] \<longrightarrow>
        map votes (snd (loadRanking s)) = [120, 95, 85, 75, 60]"
  proof
    assume h: "map votes (events s) = [120, 85, 95, 60, 75]"
    from ranking_of_five [OF h] obtain a b c d e where
      "events s = [a, b, c, d, e]"
      "array_sort (\<lambda>x y. votes y - votes x) (events s) = [a, c, b, e, d]" by blast
    with h show "map votes (snd (loadRanking s)) = [120, 95, 85, 75, 60]"
      by (simp add: loadRanking_def)
  qed
  from desc stable five show ?thesis
    by (simp add: r)
qed

theorem RankedView_descending_stable_witness:
  "map votes (events (script_loaded Map.empty)) = [120, 85, 95, 60, 75]
   \<and> map votes (snd (loadRanking (script_loaded Map.empty))) = [120, 95, 85, 75, 60]
   \<and> snd (loadRanking (script_loaded Map.empty))
       = [seed_event_1, seed_event_3, seed_event_2, seed_event_5, seed_event_4]
   \<and> fst (loadRanking (script_loaded Map.empty)) = script_loaded Map.empty
   \<and> snd (loadRanking \<lparr>events = [feria_event, seed_event_4, feria_event\<lparr>title := js ''Otra''\<rparr>],
                        localStorage = Map.empty\<rparr>)
       = [seed_event_4, feria_event, feria_event\<lparr>title := js ''Otra''\<rparr>]"
proof -
  let ?s = "script_loaded Map.empty"
  have h: "map votes (events ?s) = [120, 85, 95, 60, 75]"
    by (simp add: script_loaded_def seed_votes)
  from RankedView_descending_stable [of ?s] h
  have a: "map votes (snd (loadRanking ?s)) = [120, 95, 85, 75, 60]"
    and b: "fst (loadRanking ?s) = ?s"
    by blast+
  have c: "snd (loadRanking ?s) = [seed_event_1, seed_event_3, seed_event_2, seed_event_5, seed_event_4]"
    using seed_votes
    by (simp add: loadRanking_def script_loaded_def array_sort_def seed_events_def)
  have d: "snd (loadRanking \<lparr>events = [feria_event, seed_event_4, feria_event\<lparr>title := js ''Otra''\<rparr>],
                        localStorage = Map.empty\<rparr>)
       = [seed_event_4, feria_event, feria_event\<lparr>title := js ''Otra''\<rparr>]"
    using seed_votes
    by (simp add: loadRanking_def array_sort_def seed_events_def) (simp add: feria_event_def)
  from h a b c d show ?thesis by blast
qed

subsection \<open>Comments\<close>

lemma mset_sort_insert: "mset (sort_insert cmp x ys) = add_mset x (mset ys)"
  by (induction ys) simp_all

lemma mset_array_sort: "mset (array_sort cmp xs) = mset xs"
  by (induction xs) (simp_all add: array_sort_def mset_sort_insert)

lemma set_array_sort: "set (array_sort cmp xs) = set xs"
  using mset_array_sort [of cmp xs] by (metis set_mset_mset)

lemma array_sort_Cons: "array_sort cmp (x # xs) = sort_insert cmp x (array_sort cmp xs)"
  by (simp add: array_sort_def)

lemma sort_insert_cong:
  "(\<And>y. y \<in> set ys \<Longrightarrow> cmp x y = cmp' x y) \<Longrightarrow> sort_insert cmp x ys = sort_insert cmp' x ys"
  by (induction ys) simp_all

lemma array_sort_cong:
  "(\<And>x y. x \<in> set xs \<Longrightarrow> y \<in> set xs \<Longrightarrow> cmp x y = cmp' x y) \<Longrightarrow>
   array_sort cmp xs = array_sort cmp' xs"
proof (induction xs)
  case Nil
  show ?case by (simp add: array_sort_def)
next
  case (Cons x xs)
  have "array_sort cmp xs = array_sort cmp' xs"
    by (rule Cons.IH) (simp add: Cons.prems)
  moreover have "sort_insert cmp x (array_sort cmp' xs) = sort_insert cmp' x (array_sort cmp' xs)"
    by (rule sort_insert_cong) (simp add: Cons.prems set_array_sort)
  ultimately show ?case by (simp add: array_sort_Cons)
qed

lemma array_sort_newest_last:
  "(\<And>x. x \<in> set xs \<Longrightarrow> 0 < cmp x c) \<Longrightarrow> array_sort cmp (xs @ [c]) = c # array_sort cmp xs"
proof (induction xs)
  case Nil
  show ?case by (simp add: array_sort_def)
next
  case (Cons x xs)
  have "array_sort cmp (xs @ [c]) = c # array_sort cmp xs"
    by (rule Cons.IH) (simp add: Cons.prems)
  moreover have "0 < cmp x c" by (simp add: Cons.prems)
  ultimately show ?case by (simp add: array_sort_Cons)
qed

lemma array_sort_all_equal:
  "(\<And>x y. x \<in> set xs \<Longrightarrow> y \<in> set xs \<Longrightarrow> cmp x y = 0) \<Longrightarrow> array_sort cmp xs = xs"
proof -
  assume "\<And>x y. x \<in> set xs \<Longrightarrow> y \<in> set xs \<Longrightarrow> cmp x y = 0"
  then have "array_sort cmp xs = array_sort (\<lambda>a b. 0) xs"
    by (intro array_sort_cong) simp
  moreover have "array_sort (\<lambda>a b. 0) xs = xs"
  proof (induction xs)
    case Nil
    show ?case by (simp add: array_sort_def)
  next
    case (Cons x xs)
    then show ?case by (cases xs) (simp_all add: array_sort_Cons)
  qed
  ultimately show ?thesis by simp
qed

lemma comparator_consistent_valid:
  "(\<And>x. x \<in> set cs \<Longrightarrow> tv (comment_date x) \<noteq> None) \<Longrightarrow> comparator_consistent tv cs"
  by (simp add: comparator_consistent_def list_all_iff)

lemma comparator_consistent_all_equal:
  "(\<And>x y. x \<in> set cs \<Longrightarrow> y \<in> set cs \<Longrightarrow> date_minus tv (comment_date y) (comment_date x) = 0)
   \<Longrightarrow> comparator_consistent tv cs"
  by (simp add: comparator_consistent_def list_all_iff)

lemma renderComments_consistent:
  "comparator_consistent (time_value p) cs \<Longrightarrow>
   renderComments p cs
     = array_sort (\<lambda>a b. date_minus (time_value p) (comment_date b) (comment_date a)) cs"
  by (simp add: renderComments_def array_sort_def)

lemma renderComments_valid_dates:
  assumes "\<And>x. x \<in> set cs \<Longrightarrow> time_value p (comment_date x) = Some (k x)"
  shows "renderComments p cs = sort_key (\<lambda>x. - k x) cs"
proof -
  have "array_sort (\<lambda>a b. date_minus (time_value p) (comment_date b) (comment_date a)) cs
        = array_sort (\<lambda>a b. k b - k a) cs"
    by (rule array_sort_cong) (simp add: date_minus_def assms)
  moreover have "comparator_consistent (time_value p) cs"
    by (rule comparator_consistent_valid) (simp add: assms)
  ultimately show ?thesis
    by (simp add: renderComments_consistent array_sort_descending)
qed

lemma renderComments_all_equal:
  assumes "\<And>x y. x \<in> set cs \<Longrightarrow> y \<in> set cs
             \<Longrightarrow> date_minus (time_value p) (comment_date y) (comment_date x) = 0"
  shows "renderComments p cs = cs"
proof -
  have "comparator_consistent (time_value p) cs"
    by (rule comparator_consistent_all_equal) (simp add: assms)
  moreover have "array_sort (\<lambda>a b. date_minus (time_value p) (comment_date b) (comment_date a)) cs
      = cs"
    by (rule array_sort_all_equal) (simp add: assms)
  ultimately show ?thesis by (simp add: renderComments_consistent)
qed

lemma date_minus_positive:
  "0 < date_minus tv x y \<Longrightarrow> tv x \<noteq> None \<and> tv y \<noteq> None"
  by (simp add: date_minus_def split: option.splits)

lemma renderComments_newest_first:
  assumes "\<And>x. x \<in> set cs \<Longrightarrow> 0 < date_minus (time_value p) (comment_date c) (comment_date x)"
  shows "renderComments p (cs @ [c]) = c # renderComments p cs"
proof (cases "cs = []")
  case True
  have "date_minus (time_value p) (comment_date c) (comment_date c) = 0"
    by (simp add: date_minus_def split: option.splits)
  then have "renderComments p [c] = [c]"
    by (intro renderComments_all_equal) simp
  with True show ?thesis by (simp add: renderComments_def)
next
  case False
  then obtain x0 where "x0 \<in> set cs" by (cases cs) auto
  from date_minus_positive [OF assms [OF this]]
  have c: "time_value p (comment_date c) \<noteq> None" by simp
  have old: "time_value p (comment_date x) \<noteq> None" if "x \<in> set cs" for x
    using date_minus_positive [OF assms [OF that]] by simp
  have c1: "comparator_consistent (time_value p) cs"
    by (rule comparator_consistent_valid) (rule old)
  have c2: "comparator_consistent (time_value p) (cs @ [c])"
    by (rule comparator_consistent_valid) (use c old in auto)
  have "array_sort (\<lambda>a b. date_minus (time_value p) (comment_date b) (comment_date a)) (cs @ [c])
        = c # array_sort (\<lambda>a b. date_minus (time_value p) (comment_date b) (comment_date a)) cs"
    by (rule array_sort_newest_last) (simp add: assms)
  then show ?thesis
    by (simp add: renderComments_consistent [OF c1] renderComments_consistent [OF c2])
qed

lemma find_event_update_found:
  assumes "find_event es i = Some e" and "event_id (f e) = i"
  shows "find_event (update_found (\<lambda>x. event_id x = i) f es) i = Some (f e)"
  using assms by (induction es) (auto simp: find_event_def split: if_splits)

lemma update_found_first:
  assumes "find_event es i = Some e"
  shows "\<exists>pre post. es = pre @ e # post \<and> (\<forall>x\<in>set pre. event_id x \<noteq> i)
           \<and> update_found (\<lambda>x. event_id x = i) f es = pre @ f e # post"
proof -
  from assms obtain pre post where es: "es = pre @ e # post" and i: "event_id e = i"
    and pre: "\<forall>x\<in>set pre. event_id x \<noteq> i"
    by (auto simp: find_event_Some_iff)
  from pre i have "update_found (\<lambda>x. event_id x = i) f (pre @ e # post) = pre @ f e # post"
    by (intro update_found_split) simp_all
  with es pre show ?thesis by blast
qed

lemma seed_1_comments:
  "comments seed_event_1 =
     [\<lparr>comment_author = js ''Juan Perez'',
        comment_text = js ([CHR 0xA1] @ ''Muy emocionado por esta conferencia!''),
        comment_date = js ''2025-05-18T10:00:00Z''\<rparr>,
      \<lparr>comment_author = js ''Maria Gomez'',
        comment_text = js (''Espero que haya sesiones sobre IA '' @ [CHR 0xE9] @ ''tica.''),
        comment_date = js ''2025-05-18T11:30:00Z''\<rparr>]"
  by (simp add: seed_event_1_def)

lemma iso_values:
  "time_value run_platform (js ''2025-05-18T10:00:00Z'') = Some 1747562400000"
  "time_value run_platform (js ''2025-05-18T11:30:00Z'') = Some 1747567800000"
  "time_value run_platform (js ''2025-05-18T09:00:00.000Z'') = Some 1747558800000"
  "time_value run_platform (js ''2026-01-01T00:00:00.000Z'') = Some 1767225600000"
  by (simp_all add: run_platform_def iso_time_value_def js_def digit_of_def days_in_month_def days_from_epoch_def)

text \<open>
  C3, as the claim states it, fails in its last part: the new comment is listed first only
  when its date is later than the dates of the comments already there. On the example event
  \<open>'1'\<close>, whose comments are dated 2025-05-18 at 10:00 and at 11:30, a comment added while the
  clock reads 2025-05-18 at 09:00 is listed last.
\<close>

theorem new_comment_listed_last:
  "find_event (events (script_loaded Map.empty)) (js ''1'') = Some seed_event_1
   \<and> trim (js ''Ann'') = js ''Ann'' \<and> trim (js ''Hi'') = js ''Hi''
   \<and> snd (commentForm_submit run_platform (script_loaded Map.empty) (js ''1'')
            (js ''Ann'') (js ''Hi'') (js ''2025-05-18T09:00:00.000Z''))
       = Comentario_anadido
           [\<lparr>comment_author = js ''Maria Gomez'',
              comment_text = js (''Espero que haya sesiones sobre IA '' @ [CHR 0xE9] @ ''tica.''),
              comment_date = js ''2025-05-18T11:30:00Z''\<rparr>,
            \<lparr>comment_author = js ''Juan Perez'',
              comment_text = js ([CHR 0xA1] @ ''Muy emocionado por esta conferencia!''),
              comment_date = js ''2025-05-18T10:00:00Z''\<rparr>,
            \<lparr>comment_author = js ''Ann'', comment_text = js ''Hi'',
              comment_date = js ''2025-05-18T09:00:00.000Z''\<rparr>]"
proof -
  have f: "find_event (events (script_loaded Map.empty)) (js ''1'') = Some seed_event_1"
    by (simp add: script_loaded_def find_seed_1)
  have a: "trim (js ''Ann'') = js ''Ann''"
    by (simp add: trim_def js_def is_js_space_def)
  have r: "renderComments run_platform
             (comments seed_event_1 @ [\<lparr>comment_author = js ''Ann'', comment_text = js ''Hi'',
                comment_date = js ''2025-05-18T09:00:00.000Z''\<rparr>])
       = [\<lparr>comment_author = js ''Maria Gomez'',
              comment_text = js (''Espero que haya sesiones sobre IA '' @ [CHR 0xE9] @ ''tica.''),
              comment_date = js ''2025-05-18T11:30:00Z''\<rparr>,
            \<lparr>comment_author = js ''Juan Perez'',
              comment_text = js ([CHR 0xA1] @ ''Muy emocionado por esta conferencia!''),
              comment_date = js ''2025-05-18T10:00:00Z''\<rparr>,
            \<lparr>comment_author = js ''Ann'', comment_text = js ''Hi'',
              comment_date = js ''2025-05-18T09:00:00.000Z''\<rparr>]"
  proof -
    have c: "comparator_consistent (time_value run_platform)
             (comments seed_event_1 @ [\<lparr>comment_author = js ''Ann'', comment_text = js ''Hi'',
                comment_date = js ''2025-05-18T09:00:00.000Z''\<rparr>])"
      by (simp add: seed_1_comments comparator_consistent_def iso_values)
    show ?thesis
      unfolding renderComments_consistent [OF c]
      by (simp add: seed_1_comments array_sort_def date_minus_def iso_values)
  qed
  from commentForm_submit_added [OF f, of "js ''Ann''" "js ''Hi''" run_platform
      "js ''2025-05-18T09:00:00.000Z''"]
  have "snd (commentForm_submit run_platform (script_loaded Map.empty) (js ''1'')
            (js ''Ann'') (js ''Hi'') (js ''2025-05-18T09:00:00.000Z''))
       = Comentario_anadido (renderComments run_platform
             (comments seed_event_1 @ [\<lparr>comment_author = js ''Ann'', comment_text = js ''Hi'',
                comment_date = js ''2025-05-18T09:00:00.000Z''\<rparr>]))"
    by (simp add: a trim_Hi js_nonempty)
  with f a trim_Hi r show ?thesis by simp
qed

text \<open>
  C3, amended. On the detail view of an event \<open>E\<close>: when the author or the text is empty
  after trimming, the form shows its error message and nothing changes. Otherwise a comment is
  made of the trimmed author, the trimmed text and the clock's date, it is appended to the
  comments of \<open>E\<close> (the first event with that id) and to no other, the collection is saved,
  and the comments are listed again. The list has the same comments whenever the comparator
  is consistent on them. When every date is valid, the list goes from the latest date to the
  earliest, and comments of one and the same date are in the order in which they were added;
  when no date is valid, the list is in the order in which the comments were added. The new
  comment is listed first, before the former list, when its date is later than the date of
  every comment that was there.
\<close>

theorem AddComment_validates_appends_lists_by_date:
  assumes "find_event (events s) i = Some E"
  shows
    "(trim authorValue = [] \<or> trim textValue = [] \<longrightarrow>
        commentForm_submit p s i authorValue textValue now = (s, Completa_nombre_y_comentario))
     \<and> (trim authorValue \<noteq> [] \<and> trim textValue \<noteq> [] \<longrightarrow>
        (let c = \<lparr>comment_author = trim authorValue, comment_text = trim textValue,
                   comment_date = now\<rparr>;
             E' = E\<lparr>comments := comments E @ [c]\<rparr>;
             s' = fst (commentForm_submit p s i authorValue textValue now)
         in (\<exists>pre post. events s = pre @ E # post \<and> (\<forall>x\<in>set pre. event_id x \<noteq> i)
                \<and> events s' = pre @ E' # post)
            \<and> localStorage s' = (localStorage s)(''events'' \<mapsto> JSON_stringify (events s'))
            \<and> snd (commentForm_submit p s i authorValue textValue now)
                 = Comentario_anadido (renderComments p (comments E'))
            \<and> loadEventDetail p s' i = Detail E' (renderComments p (comments E'))
            \<and> (comparator_consistent (time_value p) (comments E') \<longrightarrow>
                   mset (renderComments p (comments E')) = mset (comments E'))
            \<and> (\<forall>k. (\<forall>x\<in>set (comments E'). time_value p (comment_date x) = Some (k x)) \<longrightarrow>
                   sorted_wrt (\<lambda>x y. k y \<le> k x) (renderComments p (comments E'))
                   \<and> (\<forall>v. filter (\<lambda>x. k x = v) (renderComments p (comments E'))
                          = filter (\<lambda>x. k x = v) (comments E')))
            \<and> ((\<forall>x\<in>set (comments E'). time_value p (comment_date x) = None) \<longrightarrow>
                   renderComments p (comments E') = comments E')
            \<and> ((\<forall>x\<in>set (comments E). 0 < date_minus (time_value p) now (comment_date x)) \<longrightarrow>
                   renderComments p (comments E') = c # renderComments p (comments E))))"
proof (intro conjI impI)
  assume "trim authorValue = [] \<or> trim textValue = []"
  with assms show "commentForm_submit p s i authorValue textValue now
      = (s, Completa_nombre_y_comentario)"
    by (rule commentForm_submit_rejected)
next
  assume ne: "trim authorValue \<noteq> [] \<and> trim textValue \<noteq> []"
  define c where "c = \<lparr>comment_author = trim authorValue, comment_text = trim textValue,
                   comment_date = now\<rparr>"
  define E' where "E' = E\<lparr>comments := comments E @ [c]\<rparr>"
  define s' where "s' = fst (commentForm_submit p s i authorValue textValue now)"
  have run: "commentForm_submit p s i authorValue textValue now =
     (saveEventsToLocalStorage
        (s\<lparr>events := update_found (\<lambda>x. event_id x = i)
            (\<lambda>x. x\<lparr>comments := comments x @ [c]\<rparr>) (events s)\<rparr>),
      Comentario_anadido (renderComments p (comments E')))"
    using commentForm_submit_added [OF assms, of authorValue textValue p now] ne
    by (simp add: c_def E'_def)
  have ev: "events s' = update_found (\<lambda>x. event_id x = i)
            (\<lambda>x. x\<lparr>comments := comments x @ [c]\<rparr>) (events s)"
    by (simp add: s'_def run)
  from update_found_first [OF assms, of "\<lambda>x. x\<lparr>comments := comments x @ [c]\<rparr>"]
  have place: "\<exists>pre post. events s = pre @ E # post \<and> (\<forall>x\<in>set pre. event_id x \<noteq> i)
                \<and> events s' = pre @ E' # post"
    by (simp add: ev E'_def)
  have mirror: "localStorage s' = (localStorage s)(''events'' \<mapsto> JSON_stringify (events s'))"
    by (simp add: s'_def run saveEventsToLocalStorage_def)
  have shown: "snd (commentForm_submit p s i authorValue textValue now)
                 = Comentario_anadido (renderComments p (comments E'))"
    by (simp add: run)
  have "event_id E = i"
    using assms by (simp add: find_event_SomeD)
  then have "find_event (events s') i = Some E'"
    unfolding ev E'_def by (intro find_event_update_found [OF assms]) simp
  then have detail: "loadEventDetail p s' i = Detail E' (renderComments p (comments E'))"
    by (simp add: loadEventDetail_def)
  have perm: "comparator_consistent (time_value p) (comments E') \<longrightarrow>
                   mset (renderComments p (comments E')) = mset (comments E')"
    by (simp add: renderComments_consistent mset_array_sort)
  have ordered: "\<forall>k. (\<forall>x\<in>set (comments E'). time_value p (comment_date x) = Some (k x)) \<longrightarrow>
                   sorted_wrt (\<lambda>x y. k y \<le> k x) (renderComments p (comments E'))
                   \<and> (\<forall>v. filter (\<lambda>x. k x = v) (renderComments p (comments E'))
                          = filter (\<lambda>x. k x = v) (comments E'))"
  proof (intro allI impI)
    fix k
    assume "\<forall>x\<in>set (comments E'). time_value p (comment_date x) = Some (k x)"
    then have r: "renderComments p (comments E') = sort_key (\<lambda>x. - k x) (comments E')"
      by (intro renderComments_valid_dates) blast
    have "sorted (map (\<lambda>x. - k x) (sort_key (\<lambda>x. - k x) (comments E')))"
      by (rule sorted_sort_key)
    then have desc: "sorted_wrt (\<lambda>x y. k y \<le> k x) (renderComments p (comments E'))"
      by (simp add: r sorted_wrt_descending)
    have "filter (\<lambda>x. k x = v) (renderComments p (comments E'))
        = filter (\<lambda>x. k x = v) (comments E')" for v
      using sort_key_stable [of "\<lambda>x. - k x" "- v" "comments E'"] by (simp add: r)
    with desc show "sorted_wrt (\<lambda>x y. k y \<le> k x) (renderComments p (comments E'))
                   \<and> (\<forall>v. filter (\<lambda>x. k x = v) (renderComments p (comments E'))
                          = filter (\<lambda>x. k x = v) (comments E'))"
      by blast
  qed
  have invalid: "(\<forall>x\<in>set (comments E'). time_value p (comment_date x) = None) \<longrightarrow>
                   renderComments p (comments E') = comments E'"
  proof
    assume "\<forall>x\<in>set (comments E'). time_value p (comment_date x) = None"
    then show "renderComments p (comments E') = comments E'"
      by (intro renderComments_all_equal) (simp add: date_minus_def)
  qed
  have newest: "(\<forall>x\<in>set (comments E). 0 < date_minus (time_value p) now (comment_date x)) \<longrightarrow>
                   renderComments p (comments E') = c # renderComments p (comments E)"
  proof
    assume "\<forall>x\<in>set (comments E). 0 < date_minus (time_value p) now (comment_date x)"
    then have "renderComments p (comments E @ [c]) = c # renderComments p (comments E)"
      by (intro renderComments_newest_first) (simp add: c_def)
    then show "renderComments p (comments E') = c # renderComments p (comments E)"
      by (simp add: E'_def)
  qed
  from place mirror shown detail perm ordered invalid newest
  show "let c = \<lparr>comment_author = trim authorValue, comment_text = trim textValue,
                   comment_date = now\<rparr>;
             E' = E\<lparr>comments := comments E @ [c]\<rparr>;
             s' = fst (commentForm_submit p s i authorValue textValue now)
         in (\<exists>pre post. events s = pre @ E # post \<and> (\<forall>x\<in>set pre. event_id x \<noteq> i)
                \<and> events s' = pre @ E' # post)
            \<and> localStorage s' = (localStorage s)(''events'' \<mapsto> JSON_stringify (events s'))
            \<and> snd (commentForm_submit p s i authorValue textValue now)
                 = Comentario_anadido (renderComments p (comments E'))
            \<and> loadEventDetail p s' i = Detail E' (renderComments p (comments E'))
            \<and> (comparator_consistent (time_value p) (comments E') \<longrightarrow>
                   mset (renderComments p (comments E')) = mset (comments E'))
            \<and> (\<forall>k. (\<forall>x\<in>set (comments E'). time_value p (comment_date x) = Some (k x)) \<longrightarrow>
                   sorted_wrt (\<lambda>x y. k y \<le> k x) (renderComments p (comments E'))
                   \<and> (\<forall>v. filter (\<lambda>x. k x = v) (renderComments p (comments E'))
                          = filter (\<lambda>x. k x = v) (comments E')))
            \<and> ((\<forall>x\<in>set (comments E'). time_value p (comment_date x) = None) \<longrightarrow>
                   renderComments p (comments E') = comments E')
            \<and> ((\<forall>x\<in>set (comments E). 0 < date_minus (time_value p) now (comment_date x)) \<longrightarrow>
                   renderComments p (comments E') = c # renderComments p (comments E))"
    unfolding Let_def c_def [symmetric] E'_def [symmetric] s'_def [symmetric] by blast
qed

theorem AddComment_validates_appends_lists_by_date_witness:
  "find_event (events (script_loaded Map.empty)) (js ''1'') = Some seed_event_1
   \<and> commentForm_submit run_platform (script_loaded Map.empty) (js ''1'')
        (js ''   '') (js ''Hi'') (js ''2026-01-01T00:00:00.000Z'')
       = (script_loaded Map.empty, Completa_nombre_y_comentario)
   \<and> commentForm_submit run_platform (script_loaded Map.empty) (js ''1'')
        (js '' Ann '') [] (js ''2026-01-01T00:00:00.000Z'')
       = (script_loaded Map.empty, Completa_nombre_y_comentario)
   \<and> snd (commentForm_submit run_platform (script_loaded Map.empty) (js ''1'')
            (js '' Ann '') (js ''Hi'') (js ''2026-01-01T00:00:00.000Z''))
       = Comentario_anadido
           [\<lparr>comment_author = js ''Ann'', comment_text = js ''Hi'',
              comment_date = js ''2026-01-01T00:00:00.000Z''\<rparr>,
            \<lparr>comment_author = js ''Maria Gomez'',
              comment_text = js (''Espero que haya sesiones sobre IA '' @ [CHR 0xE9] @ ''tica.''),
              comment_date = js ''2025-05-18T11:30:00Z''\<rparr>,
            \<lparr>comment_author = js ''Juan Perez'',
              comment_text = js ([CHR 0xA1] @ ''Muy emocionado por esta conferencia!''),
              comment_date = js ''2025-05-18T10:00:00Z''\<rparr>]
   \<and> localStorage (fst (commentForm_submit run_platform (script_loaded Map.empty) (js ''1'')
            (js '' Ann '') (js ''Hi'') (js ''2026-01-01T00:00:00.000Z''))) ''events''
       = Some (JSON_stringify (events (fst (commentForm_submit run_platform
            (script_loaded Map.empty) (js ''1'') (js '' Ann '') (js ''Hi'')
            (js ''2026-01-01T00:00:00.000Z'')))))
   \<and> comparator_consistent (time_value run_platform)
        (comments seed_event_1 @ [\<lparr>comment_author = js ''Ann'', comment_text = js ''Hi'',
            comment_date = js ''2026-01-01T00:00:00.000Z''\<rparr>])
   \<and> mset (renderComments run_platform
        (comments seed_event_1 @ [\<lparr>comment_author = js ''Ann'', comment_text = js ''Hi'',
            comment_date = js ''2026-01-01T00:00:00.000Z''\<rparr>]))
     = mset (comments seed_event_1 @ [\<lparr>comment_author = js ''Ann'', comment_text = js ''Hi'',
            comment_date = js ''2026-01-01T00:00:00.000Z''\<rparr>])"
proof -
  let ?s = "script_loaded Map.empty"
  let ?now = "js ''2026-01-01T00:00:00.000Z''"
  let ?c = "\<lparr>comment_author = js ''Ann'', comment_text = js ''Hi'', comment_date = ?now\<rparr>"
  have f: "find_event (events ?s) (js ''1'') = Some seed_event_1"
    by (simp add: script_loaded_def find_seed_1)
  note t = AddComment_validates_appends_lists_by_date [OF f, of _ _ run_platform ?now]
  from t [of "js ''   ''" "js ''Hi''"]
  have blank: "commentForm_submit run_platform ?s (js ''1'') (js ''   '') (js ''Hi'') ?now
       = (?s, Completa_nombre_y_comentario)"
    by (simp add: trim_blanks)
  have "trim [] = []"
    by (simp add: trim_def)
  with t [of "js '' Ann ''" "[]"]
  have empty: "commentForm_submit run_platform ?s (js ''1'') (js '' Ann '') [] ?now
       = (?s, Completa_nombre_y_comentario)"
    by simp
  have later: "\<forall>x\<in>set (comments seed_event_1). 0 < date_minus (time_value run_platform) ?now (comment_date x)"
    by (simp add: seed_1_comments date_minus_def iso_values)
  have before: "renderComments run_platform (comments seed_event_1) =
           [\<lparr>comment_author = js ''Maria Gomez'',
              comment_text = js (''Espero que haya sesiones sobre IA '' @ [CHR 0xE9] @ ''tica.''),
              comment_date = js ''2025-05-18T11:30:00Z''\<rparr>,
            \<lparr>comment_author = js ''Juan Perez'',
              comment_text = js ([CHR 0xA1] @ ''Muy emocionado por esta conferencia!''),
              comment_date = js ''2025-05-18T10:00:00Z''\<rparr>]"
  proof -
    have c: "comparator_consistent (time_value run_platform) (comments seed_event_1)"
      by (simp add: seed_1_comments comparator_consistent_def iso_values)
    show ?thesis
      unfolding renderComments_consistent [OF c]
      by (simp add: seed_1_comments array_sort_def date_minus_def iso_values)
  qed
  have cons: "comparator_consistent (time_value run_platform) (comments seed_event_1 @ [?c])"
    by (simp add: seed_1_comments comparator_consistent_def iso_values)
  from t [of "js '' Ann ''" "js ''Hi''"] cons
  have perm: "mset (renderComments run_platform (comments seed_event_1 @ [?c]))
      = mset (comments seed_event_1 @ [?c])"
    by (simp add: Let_def trim_Ann trim_Hi js_nonempty)
  from t [of "js '' Ann ''" "js ''Hi''"] later
  have added: "snd (commentForm_submit run_platform ?s (js ''1'') (js '' Ann '') (js ''Hi'') ?now)
       = Comentario_anadido (?c # renderComments run_platform (comments seed_event_1))"
    and mirror: "localStorage (fst (commentForm_submit run_platform ?s (js ''1'')
            (js '' Ann '') (js ''Hi'') ?now)) ''events''
       = Some (JSON_stringify (events (fst (commentForm_submit run_platform ?s (js ''1'')
            (js '' Ann '') (js ''Hi'') ?now))))"
    by (simp_all add: Let_def trim_Ann trim_Hi js_nonempty)
  from added have "snd (commentForm_submit run_platform ?s (js ''1'') (js '' Ann '') (js ''Hi'') ?now)
       = Comentario_anadido
           [?c,
            \<lparr>comment_author = js ''Maria Gomez'',
              comment_text = js (''Espero que haya sesiones sobre IA '' @ [CHR 0xE9] @ ''tica.''),
              comment_date = js ''2025-05-18T11:30:00Z''\<rparr>,
            \<lparr>comment_author = js ''Juan Perez'',
              comment_text = js ([CHR 0xA1] @ ''Muy emocionado por esta conferencia!''),
              comment_date = js ''2025-05-18T10:00:00Z''\<rparr>]"
    by (simp only: before)
  with f blank empty mirror cons perm show ?thesis
    by blast
qed

subsection \<open>Validation of the create-event form\<close>

lemma validateField_required_empty:
  "required rules \<Longrightarrow> trim (el_value el) = [] \<Longrightarrow> validateField el rules = Some Campo_obligatorio"
  by (simp add: validateField_def)

lemma validateField_too_short:
  "trim (el_value el) \<noteq> [] \<Longrightarrow> minLength rules = Some m \<Longrightarrow> length (trim (el_value el)) < m \<Longrightarrow>
   validateField el rules = Some (Al_menos m)"
  by (auto simp: validateField_def Let_def)

lemma validateField_too_long:
  "maxLength rules = Some n \<Longrightarrow> 0 < n \<Longrightarrow> n < length (trim (el_value el)) \<Longrightarrow>
   minLength rules = Some m \<Longrightarrow> m \<le> length (trim (el_value el)) \<Longrightarrow>
   validateField el rules = Some (No_exceder n)"
  by (auto simp: validateField_def Let_def)

lemma validateField_title:
  assumes "el_type el \<notin> {''email'', ''url'', ''date''}" and "el_tagName el \<noteq> ''SELECT''"
  shows "validateField el \<lparr>required = True, minLength = Some 5, maxLength = Some 100\<rparr> = None
         \<longleftrightarrow> 5 \<le> length (trim (el_value el)) \<and> length (trim (el_value el)) \<le> 100"
  using assms by (auto simp: validateField_def Let_def)

lemma validateField_description:
  assumes "el_type el \<notin> {''email'', ''url'', ''date''}" and "el_tagName el \<noteq> ''SELECT''"
  shows "validateField el \<lparr>required = True, minLength = Some 20, maxLength = None\<rparr> = None
         \<longleftrightarrow> 20 \<le> length (trim (el_value el))"
  using assms by (auto simp: validateField_def Let_def)

lemma validateField_date:
  assumes "el_type el = ''date''" and "el_tagName el \<noteq> ''SELECT''"
  shows "validateField el \<lparr>required = True, minLength = None, maxLength = None\<rparr> = None
         \<longleftrightarrow> trim (el_value el) \<noteq> [] \<and> el_checkValidity el"
  using assms by (auto simp: validateField_def Let_def)

lemma validateField_image:
  assumes "el_type el = ''url''" and "el_tagName el \<noteq> ''SELECT''"
  shows "validateField el \<lparr>required = False, minLength = None, maxLength = None\<rparr> = None
         \<longleftrightarrow> trim (el_value el) = [] \<or> el_checkValidity el"
  using assms by (auto simp: validateField_def Let_def)

lemma validateField_category:
  assumes "el_type el \<notin> {''email'', ''url'', ''date''}"
  shows "validateField el \<lparr>required = True, minLength = None, maxLength = None\<rparr> = None
         \<longleftrightarrow> trim (el_value el) \<noteq> []"
  using assms by (auto simp: validateField_def Let_def)

lemma formIsValid_fields:
  "formIsValid page \<longleftrightarrow>
     validateField (page ''event-title'')
       \<lparr>required = True, minLength = Some 5, maxLength = Some 100\<rparr> = None
     \<and> validateField (page ''event-description'')
       \<lparr>required = True, minLength = Some 20, maxLength = None\<rparr> = None
     \<and> validateField (page ''event-date'')
       \<lparr>required = True, minLength = None, maxLength = None\<rparr> = None
     \<and> validateField (page ''event-image'')
       \<lparr>required = False, minLength = None, maxLength = None\<rparr> = None
     \<and> validateField (page ''event-category'')
       \<lparr>required = True, minLength = None, maxLength = None\<rparr> = None"
  by (simp add: formIsValid_def fields_def)

lemma form_errors_fields:
  "form_errors page =
     (case validateField (page ''event-title'')
             \<lparr>required = True, minLength = Some 5, maxLength = Some 100\<rparr> of
        None \<Rightarrow> [] | Some msg \<Rightarrow> [(''title'', msg)])
     @ (case validateField (page ''event-description'')
             \<lparr>required = True, minLength = Some 20, maxLength = None\<rparr> of
        None \<Rightarrow> [] | Some msg \<Rightarrow> [(''description'', msg)])
     @ (case validateField (page ''event-date'')
             \<lparr>required = True, minLength = None, maxLength = None\<rparr> of
        None \<Rightarrow> [] | Some msg \<Rightarrow> [(''date'', msg)])
     @ (case validateField (page ''event-image'')
             \<lparr>required = False, minLength = None, maxLength = None\<rparr> of
        None \<Rightarrow> [] | Some msg \<Rightarrow> [(''imageUrl'', msg)])
     @ (case validateField (page ''event-category'')
             \<lparr>required = True, minLength = None, maxLength = None\<rparr> of
        None \<Rightarrow> [] | Some msg \<Rightarrow> [(''category'', msg)])"
  by (simp add: form_errors_def fields_def)

lemma form_errors_empty_iff: "form_errors page = [] \<longleftrightarrow> formIsValid page"
  by (auto simp: form_errors_fields formIsValid_fields split: option.splits)

lemma form_errors_names_distinct: "distinct (map fst (form_errors page))"
  by (simp add: form_errors_fields split: option.splits)

lemma form_errors_member:
  "(name, msg) \<in> set (form_errors page) \<longleftrightarrow>
     (\<exists>fid rules. (fid, name, rules) \<in> set fields \<and> validateField (page fid) rules = Some msg)"
proof -
  have "set (form_errors page) =
      (\<Union>(fid, name, rules)\<in>set fields.
          (case validateField (page fid) rules of None \<Rightarrow> {} | Some m \<Rightarrow> {(name, m)}))"
    by (simp add: form_errors_def fields_def split: option.splits)
  then show ?thesis
    by (fastforce split: option.splits)
qed

text \<open>
  C4. The form is valid exactly when every one of the five fields passes \<open>validateField\<close>.
  When it is not, nothing is created or stored, and the report holds one message for each
  invalid field and none for a valid one, whatever the other fields are: each field is
  validated. A title of trimmed length 4 is reported with \<open>'Debe tener al menos 5
  caracteres.'\<close>; an empty title, description, date or category with \<open>'Este campo es
  obligatorio.'\<close>; a description shorter than 20 and a title longer than 100 with their
  bounds. On a page whose title and description are text fields, whose date is a date input,
  whose image is a URL input and whose category is a select, the form is valid exactly when
  the trimmed title has 5 to 100 code units, the trimmed description at least 20, the date is
  not empty and valid for the browser, the image is empty or valid for the browser, and the
  category is not empty.
\<close>

theorem CreateEvent_reports_every_invalid_field:
  "(formIsValid page \<longleftrightarrow> (\<forall>(fid, name, rules)\<in>set fields. validateField (page fid) rules = None))
   \<and> (\<not> formIsValid page \<longrightarrow>
        createEventForm_submit s page now rnd = (s, Corrige_los_errores (form_errors page))
        \<and> form_errors page \<noteq> [])
   \<and> (formIsValid page \<longrightarrow>
        form_errors page = []
        \<and> (\<exists>e. snd (createEventForm_submit s page now rnd) = Evento_creado e))
   \<and> distinct (map fst (form_errors page))
   \<and> (\<forall>name msg. (name, msg) \<in> set (form_errors page) \<longleftrightarrow>
        (\<exists>fid rules. (fid, name, rules) \<in> set fields \<and> validateField (page fid) rules = Some msg))
   \<and> (length (trim (el_value (page ''event-title''))) = 4 \<longrightarrow>
        (''title'', Al_menos 5) \<in> set (form_errors page))
   \<and> (trim (el_value (page ''event-title'')) \<noteq> []
        \<and> length (trim (el_value (page ''event-title''))) < 5 \<longrightarrow>
        (''title'', Al_menos 5) \<in> set (form_errors page))
   \<and> (100 < length (trim (el_value (page ''event-title''))) \<longrightarrow>
        (''title'', No_exceder 100) \<in> set (form_errors page))
   \<and> (trim (el_value (page ''event-description'')) \<noteq> []
        \<and> length (trim (el_value (page ''event-description''))) < 20 \<longrightarrow>
        (''description'', Al_menos 20) \<in> set (form_errors page))
   \<and> (trim (el_value (page ''event-title'')) = [] \<longrightarrow>
        (''title'', Campo_obligatorio) \<in> set (form_errors page))
   \<and> (trim (el_value (page ''event-description'')) = [] \<longrightarrow>
        (''description'', Campo_obligatorio) \<in> set (form_errors page))
   \<and> (trim (el_value (page ''event-date'')) = [] \<longrightarrow>
        (''date'', Campo_obligatorio) \<in> set (form_errors page))
   \<and> (trim (el_value (page ''event-category'')) = [] \<longrightarrow>
        (''category'', Campo_obligatorio) \<in> set (form_errors page))
   \<and> (el_type (page ''event-title'') \<notin> {''email'', ''url'', ''date''}
        \<and> el_tagName (page ''event-title'') \<noteq> ''SELECT''
        \<and> el_type (page ''event-description'') \<notin> {''email'', ''url'', ''date''}
        \<and> el_tagName (page ''event-description'') \<noteq> ''SELECT''
        \<and> el_type (page ''event-date'') = ''date''
        \<and> el_tagName (page ''event-date'') \<noteq> ''SELECT''
        \<and> el_type (page ''event-image'') = ''url''
        \<and> el_tagName (page ''event-image'') \<noteq> ''SELECT''
        \<and> el_type (page ''event-category'') \<notin> {''email'', ''url'', ''date''} \<longrightarrow>
        (formIsValid page \<longleftrightarrow>
           5 \<le> length (trim (el_value (page ''event-title'')))
           \<and> length (trim (el_value (page ''event-title''))) \<le> 100
           \<and> 20 \<le> length (trim (el_value (page ''event-description'')))
           \<and> trim (el_value (page ''event-date'')) \<noteq> []
           \<and> el_checkValidity (page ''event-date'')
           \<and> (trim (el_value (page ''event-image'')) = [] \<or> el_checkValidity (page ''event-image''))
           \<and> trim (el_value (page ''event-category'')) \<noteq> []))"
proof -
  let ?title = "\<lparr>required = True, minLength = Some 5, maxLength = Some 100\<rparr>"
  let ?description = "\<lparr>required = True, minLength = Some 20, maxLength = None\<rparr>"
  let ?required = "\<lparr>required = True, minLength = None, maxLength = None\<rparr>"
  have f_title: "(''event-title'', ''title'', ?title) \<in> set fields"
    and f_description: "(''event-description'', ''description'', ?description) \<in> set fields"
    and f_date: "(''event-date'', ''date'', ?required) \<in> set fields"
    and f_category: "(''event-category'', ''category'', ?required) \<in> set fields"
    by (simp_all add: fields_def)
  have member: "(name, msg) \<in> set (form_errors page)"
    if "(fid, name, rules) \<in> set fields" and "validateField (page fid) rules = Some msg"
    for fid name rules msg
    using that form_errors_member [of name msg page] by blast
  have all: "formIsValid page \<longleftrightarrow>
      (\<forall>(fid, name, rules)\<in>set fields. validateField (page fid) rules = None)"
    by (simp add: formIsValid_def list_all_iff)
  have invalid: "\<not> formIsValid page \<longrightarrow>
        createEventForm_submit s page now rnd = (s, Corrige_los_errores (form_errors page))
        \<and> form_errors page \<noteq> []"
    by (simp add: createEventForm_submit_invalid form_errors_empty_iff)
  have valid: "formIsValid page \<longrightarrow>
        form_errors page = []
        \<and> (\<exists>e. snd (createEventForm_submit s page now rnd) = Evento_creado e)"
    by (simp add: form_errors_empty_iff createEventForm_submit_def Let_def)
  have four: "length (trim (el_value (page ''event-title''))) = 4 \<longrightarrow>
        (''title'', Al_menos 5) \<in> set (form_errors page)"
  proof
    assume h: "length (trim (el_value (page ''event-title''))) = 4"
    then have "trim (el_value (page ''event-title'')) \<noteq> []" by auto
    then have "validateField (page ''event-title'') ?title = Some (Al_menos 5)"
      by (rule validateField_too_short) (simp_all add: h)
    with f_title show "(''title'', Al_menos 5) \<in> set (form_errors page)" by (rule member)
  qed
  have short_title: "trim (el_value (page ''event-title'')) \<noteq> []
        \<and> length (trim (el_value (page ''event-title''))) < 5 \<longrightarrow>
        (''title'', Al_menos 5) \<in> set (form_errors page)"
  proof
    assume h: "trim (el_value (page ''event-title'')) \<noteq> []
        \<and> length (trim (el_value (page ''event-title''))) < 5"
    then have "validateField (page ''event-title'') ?title = Some (Al_menos 5)"
      by (intro validateField_too_short) simp_all
    with f_title show "(''title'', Al_menos 5) \<in> set (form_errors page)" by (rule member)
  qed
  have long_title: "100 < length (trim (el_value (page ''event-title''))) \<longrightarrow>
        (''title'', No_exceder 100) \<in> set (form_errors page)"
  proof
    assume h: "100 < length (trim (el_value (page ''event-title'')))"
    then have "validateField (page ''event-title'') ?title = Some (No_exceder 100)"
      by (intro validateField_too_long [where m = 5]) simp_all
    with f_title show "(''title'', No_exceder 100) \<in> set (form_errors page)" by (rule member)
  qed
  have short_description: "trim (el_value (page ''event-description'')) \<noteq> []
        \<and> length (trim (el_value (page ''event-description''))) < 20 \<longrightarrow>
        (''description'', Al_menos 20) \<in> set (form_errors page)"
  proof
    assume h: "trim (el_value (page ''event-description'')) \<noteq> []
        \<and> length (trim (el_value (page ''event-description''))) < 20"
    then have "validateField (page ''event-description'') ?description = Some (Al_menos 20)"
      by (intro validateField_too_short) simp_all
    with f_description show "(''description'', Al_menos 20) \<in> set (form_errors page)"
      by (rule member)
  qed
  have no_title: "trim (el_value (page ''event-title'')) = [] \<longrightarrow>
        (''title'', Campo_obligatorio) \<in> set (form_errors page)"
    using member [OF f_title] by (simp add: validateField_required_empty)
  have no_description: "trim (el_value (page ''event-description'')) = [] \<longrightarrow>
        (''description'', Campo_obligatorio) \<in> set (form_errors page)"
    using member [OF f_description] by (simp add: validateField_required_empty)
  have no_date: "trim (el_value (page ''event-date'')) = [] \<longrightarrow>
        (''date'', Campo_obligatorio) \<in> set (form_errors page)"
    using member [OF f_date] by (simp add: validateField_required_empty)
  have no_category: "trim (el_value (page ''event-category'')) = [] \<longrightarrow>
        (''category'', Campo_obligatorio) \<in> set (form_errors page)"
    using member [OF f_category] by (simp add: validateField_required_empty)
  have kinds: "el_type (page ''event-title'') \<notin> {''email'', ''url'', ''date''}
        \<and> el_tagName (page ''event-title'') \<noteq> ''SELECT''
        \<and> el_type (page ''event-description'') \<notin> {''email'', ''url'', ''date''}
        \<and> el_tagName (page ''event-description'') \<noteq> ''SELECT''
        \<and> el_type (page ''event-date'') = ''date''
        \<and> el_tagName (page ''event-date'') \<noteq> ''SELECT''
        \<and> el_type (page ''event-image'') = ''url''
        \<and> el_tagName (page ''event-image'') \<noteq> ''SELECT''
        \<and> el_type (page ''event-category'') \<notin> {''email'', ''url'', ''date''} \<longrightarrow>
        (formIsValid page \<longleftrightarrow>
           5 \<le> length (trim (el_value (page ''event-title'')))
           \<and> length (trim (el_value (page ''event-title''))) \<le> 100
           \<and> 20 \<le> length (trim (el_value (page ''event-description'')))
           \<and> trim (el_value (page ''event-date'')) \<noteq> []
           \<and> el_checkValidity (page ''event-date'')
           \<and> (trim (el_value (page ''event-image'')) = [] \<or> el_checkValidity (page ''event-image''))
           \<and> trim (el_value (page ''event-category'')) \<noteq> [])"
  proof
    assume k: "el_type (page ''event-title'') \<notin> {''email'', ''url'', ''date''}
        \<and> el_tagName (page ''event-title'') \<noteq> ''SELECT''
        \<and> el_type (page ''event-description'') \<notin> {''email'', ''url'', ''date''}
        \<and> el_tagName (page ''event-description'') \<noteq> ''SELECT''
        \<and> el_type (page ''event-date'') = ''date''
        \<and> el_tagName (page ''event-date'') \<noteq> ''SELECT''
        \<and> el_type (page ''event-image'') = ''url''
        \<and> el_tagName (page ''event-image'') \<noteq> ''SELECT''
        \<and> el_type (page ''event-category'') \<notin> {''email'', ''url'', ''date''}"
    have 1: "validateField (page ''event-title'') ?title = None
         \<longleftrightarrow> 5 \<le> length (trim (el_value (page ''event-title'')))
           \<and> length (trim (el_value (page ''event-title''))) \<le> 100"
      using k by (intro validateField_title) simp_all
    have 2: "validateField (page ''event-description'') ?description = None
         \<longleftrightarrow> 20 \<le> length (trim (el_value (page ''event-description'')))"
      using k by (intro validateField_description) simp_all
    have 3: "validateField (page ''event-date'') ?required = None
         \<longleftrightarrow> trim (el_value (page ''event-date'')) \<noteq> [] \<and> el_checkValidity (page ''event-date'')"
      using k by (intro validateField_date) simp_all
    have 4: "validateField (page ''event-image'')
           \<lparr>required = False, minLength = None, maxLength = None\<rparr> = None
         \<longleftrightarrow> trim (el_value (page ''event-image'')) = [] \<or> el_checkValidity (page ''event-image'')"
      using k by (intro validateField_image) simp_all
    have 5: "validateField (page ''event-category'') ?required = None
         \<longleftrightarrow> trim (el_value (page ''event-category'')) \<noteq> []"
      using k by (intro validateField_category) simp_all
    show "formIsValid page \<longleftrightarrow>
           5 \<le> length (trim (el_value (page ''event-title'')))
           \<and> length (trim (el_value (page ''event-title''))) \<le> 100
           \<and> 20 \<le> length (trim (el_value (page ''event-description'')))
           \<and> trim (el_value (page ''event-date'')) \<noteq> []
           \<and> el_checkValidity (page ''event-date'')
           \<and> (trim (el_value (page ''event-image'')) = [] \<or> el_checkValidity (page ''event-image''))
           \<and> trim (el_value (page ''event-category'')) \<noteq> []"
      unfolding formIsValid_fields 1 2 3 4 5 by blast
  qed
  have names: "distinct (map fst (form_errors page))"
    by (rule form_errors_names_distinct)
  have members: "\<forall>name msg. (name, msg) \<in> set (form_errors page) \<longleftrightarrow>
        (\<exists>fid rules. (fid, name, rules) \<in> set fields \<and> validateField (page fid) rules = Some msg)"
    by (simp add: form_errors_member)
  show ?thesis
    apply (intro conjI)
    apply (rule all)
    apply (rule invalid)
    apply (rule valid)
    apply (rule names)
    apply (rule members)
    apply (rule four)
    apply (rule short_title)
    apply (rule long_title)
    apply (rule short_description)
    apply (rule no_title)
    apply (rule no_description)
    apply (rule no_date)
    apply (rule no_category)
    apply (rule kinds)
    done
qed

theorem CreateEvent_reports_every_invalid_field_witness:
  "\<not> formIsValid short_title_form
   \<and> length (trim (el_value (short_title_form ''event-title''))) = 4
   \<and> createEventForm_submit (script_loaded Map.empty) short_title_form 1767225600000
        (js ''k3j9x2a'')
       = (script_loaded Map.empty,
          Corrige_los_errores [(''title'', Al_menos 5), (''date'', Campo_obligatorio)])
   \<and> (''title'', Al_menos 5) \<in> set (form_errors short_title_form)
   \<and> (''date'', Campo_obligatorio) \<in> set (form_errors short_title_form)
   \<and> length (trim (el_value (filled_form ''event-title''))) = 5
   \<and> formIsValid filled_form
   \<and> form_errors filled_form = []
   \<and> snd (createEventForm_submit (script_loaded Map.empty) filled_form 1767225600000
        (js ''k3j9x2a'')) = Evento_creado feria_event"
proof -
  let ?s = "script_loaded Map.empty"
  note short = CreateEvent_reports_every_invalid_field
      [of short_title_form ?s 1767225600000 "js ''k3j9x2a''"]
  note filled = CreateEvent_reports_every_invalid_field
      [of filled_form ?s 1767225600000 "js ''k3j9x2a''"]
  have four: "length (trim (el_value (short_title_form ''event-title''))) = 4"
    by (simp add: short_title_form_def form_page_def trim_def js_def is_js_space_def)
  have no_date: "trim (el_value (short_title_form ''event-date'')) = []"
    by (simp add: short_title_form_def form_page_def trim_def)
  from short four have e1: "(''title'', Al_menos 5) \<in> set (form_errors short_title_form)"
    by blast
  from short no_date have e2: "(''date'', Campo_obligatorio) \<in> set (form_errors short_title_form)"
    by blast
  from e1 have "form_errors short_title_form \<noteq> []" by auto
  with short have inv: "\<not> formIsValid short_title_form" by blast
  with short have "createEventForm_submit ?s short_title_form 1767225600000 (js ''k3j9x2a'')
       = (?s, Corrige_los_errores (form_errors short_title_form))" by blast
  then have rep: "createEventForm_submit ?s short_title_form 1767225600000 (js ''k3j9x2a'')
       = (?s, Corrige_los_errores [(''title'', Al_menos 5), (''date'', Campo_obligatorio)])"
    by (simp add: short_title_form_errors)
  have five: "length (trim (el_value (filled_form ''event-title''))) = 5"
    by (simp add: filled_form_def form_page_def trim_def js_def is_js_space_def)
  have kinds: "el_type (filled_form ''event-title'') \<notin> {''email'', ''url'', ''date''}
        \<and> el_tagName (filled_form ''event-title'') \<noteq> ''SELECT''
        \<and> el_type (filled_form ''event-description'') \<notin> {''email'', ''url'', ''date''}
        \<and> el_tagName (filled_form ''event-description'') \<noteq> ''SELECT''
        \<and> el_type (filled_form ''event-date'') = ''date''
        \<and> el_tagName (filled_form ''event-date'') \<noteq> ''SELECT''
        \<and> el_type (filled_form ''event-image'') = ''url''
        \<and> el_tagName (filled_form ''event-image'') \<noteq> ''SELECT''
        \<and> el_type (filled_form ''event-category'') \<notin> {''email'', ''url'', ''date''}"
    by (simp add: filled_form_def form_page_def)
  have content: "20 \<le> length (trim (el_value (filled_form ''event-description'')))
           \<and> trim (el_value (filled_form ''event-date'')) \<noteq> []
           \<and> el_checkValidity (filled_form ''event-date'')
           \<and> (trim (el_value (filled_form ''event-image'')) = []
               \<or> el_checkValidity (filled_form ''event-image''))
           \<and> trim (el_value (filled_form ''event-category'')) \<noteq> []"
    by (simp add: filled_form_def form_page_def trim_def js_def is_js_space_def)
  from five have bounds: "5 \<le> length (trim (el_value (filled_form ''event-title'')))
           \<and> length (trim (el_value (filled_form ''event-title''))) \<le> 100"
    by simp
  from filled kinds bounds content have ok: "formIsValid filled_form"
    by blast
  with filled have none: "form_errors filled_form = []" by blast
  have made: "snd (createEventForm_submit ?s filled_form 1767225600000 (js ''k3j9x2a''))
      = Evento_creado feria_event"
    by (simp add: create_feria)
  from inv four rep e1 e2 five ok none made show ?thesis by blast
qed

subsection \<open>The id of a new event\<close>

lemma number_of_append:
  "number_of acc (xs @ ys) = Option.bind (number_of acc xs) (\<lambda>a. number_of a ys)"
  by (induction xs arbitrary: acc) (simp_all split: option.splits)

lemma unat_digit_unit: "d < 10 \<Longrightarrow> unat (digit_unit d) = 48 + d"
proof -
  assume d: "d < 10"
  have "unat (of_nat (48 + d) :: 16 word) = (48 + d) mod 2 ^ LENGTH(16)"
    by (rule unat_of_nat)
  with d show ?thesis
    by (simp only: digit_unit_def) simp
qed

lemma digit_of_digit_unit: "d < 10 \<Longrightarrow> digit_of (digit_unit d) = Some d"
proof -
  assume d: "d < 10"
  define w where "w = digit_unit d"
  have u: "unat w = 48 + d"
    using d by (simp add: w_def unat_digit_unit)
  have "unat (0x30 :: 16 word) \<le> unat w" and "unat w \<le> unat (0x39 :: 16 word)"
    using d by (simp_all add: u)
  then have "0x30 \<le> w" and "w \<le> 0x39"
    by (simp_all only: word_le_nat_alt)
  then have "digit_of w = Some d"
    by (simp add: digit_of_def u)
  then show ?thesis by (simp only: w_def)
qed

lemma digit_unit_not_minus: "d < 10 \<Longrightarrow> digit_unit d \<noteq> 0x2D"
proof
  assume d: "d < 10" and "digit_unit d = 0x2D"
  then have "unat (digit_unit d) = unat (0x2D :: 16 word)"
    by (simp only:)
  with d show False
    by (simp add: unat_digit_unit)
qed

lemma number_of_nat_digits: "number_of 0 (nat_digits n) = Some n"
proof (induction n rule: nat_digits.induct)
  case (1 n)
  show ?case
  proof (cases "n < 10")
    case True
    then show ?thesis
      by (subst nat_digits.simps) (simp add: digit_of_digit_unit)
  next
    case False
    with 1 have "number_of 0 (nat_digits (n div 10)) = Some (n div 10)" by simp
    with False show ?thesis
      by (subst nat_digits.simps) (simp add: number_of_append digit_of_digit_unit)
  qed
qed

lemma nat_digits_no_minus: "0x2D \<notin> set (nat_digits n)"
proof (induction n rule: nat_digits.induct)
  case (1 n)
  show ?case
  proof (cases "n < 10")
    case True
    with digit_unit_not_minus [of n] show ?thesis
      by (subst nat_digits.simps) auto
  next
    case False
    with 1 have "0x2D \<notin> set (nat_digits (n div 10))" by simp
    moreover have "digit_unit (n mod 10) \<noteq> 0x2D"
      by (rule digit_unit_not_minus) simp
    ultimately show ?thesis
      using False by (subst nat_digits.simps) auto
  qed
qed

lemma nat_digits_nonempty: "nat_digits n \<noteq> []"
  by (subst nat_digits.simps) simp

lemma nat_digits_inject: "nat_digits n = nat_digits m \<Longrightarrow> n = m"
  by (metis number_of_nat_digits option.inject)

lemma split_at_first:
  assumes "a \<notin> set xs" and "a \<notin> set xs'" and "xs @ a # ys = xs' @ a # ys'"
  shows "xs = xs' \<and> ys = ys'"
proof -
  have "takeWhile (\<lambda>x. x \<noteq> a) (xs @ a # ys) = xs"
    using assms(1) by (induction xs) auto
  moreover have "takeWhile (\<lambda>x. x \<noteq> a) (xs' @ a # ys') = xs'"
    using assms(2) by (induction xs') auto
  ultimately have "xs = xs'" using assms(3) by simp
  with assms(3) show ?thesis by simp
qed

lemma new_event_id_inject:
  "new_event_id now rnd = new_event_id now' rnd' \<longleftrightarrow> now = now' \<and> rnd = rnd'"
proof
  assume "new_event_id now rnd = new_event_id now' rnd'"
  then have eq: "int_to_string now @ 0x2D # rnd = int_to_string now' @ 0x2D # rnd'"
    by (simp add: new_event_id_def js_def)
  have hd_digits: "hd (nat_digits k) \<noteq> 0x2D" for k
    using nat_digits_no_minus [of k] nat_digits_nonempty [of k] by (metis hd_in_set)
  show "now = now' \<and> rnd = rnd'"
  proof (cases "now < 0")
    case True
    have neg': "now' < 0"
    proof (rule ccontr)
      assume "\<not> now' < 0"
      with True eq have "0x2D # nat_digits (nat (- now)) @ 0x2D # rnd
          = nat_digits (nat now') @ 0x2D # rnd'"
        by (simp add: int_to_string_def)
      then have "hd (nat_digits (nat now') @ 0x2D # rnd') = 0x2D"
        by (metis list.sel(1))
      with nat_digits_nonempty [of "nat now'"] hd_digits [of "nat now'"] show False
        by simp
    qed
    with True eq have "nat_digits (nat (- now)) @ 0x2D # rnd
        = nat_digits (nat (- now')) @ 0x2D # rnd'"
      by (simp add: int_to_string_def)
    with nat_digits_no_minus nat_digits_no_minus
    have "nat_digits (nat (- now)) = nat_digits (nat (- now')) \<and> rnd = rnd'"
      by (rule split_at_first)
    with True neg' show ?thesis
      by (auto dest: nat_digits_inject)
  next
    case False
    have pos': "\<not> now' < 0"
    proof
      assume "now' < 0"
      with False eq have "nat_digits (nat now) @ 0x2D # rnd
          = 0x2D # nat_digits (nat (- now')) @ 0x2D # rnd'"
        by (simp add: int_to_string_def)
      then have "hd (nat_digits (nat now) @ 0x2D # rnd) = 0x2D"
        by (metis list.sel(1))
      with nat_digits_nonempty [of "nat now"] hd_digits [of "nat now"] show False
        by simp
    qed
    with False eq have "nat_digits (nat now) @ 0x2D # rnd = nat_digits (nat now') @ 0x2D # rnd'"
      by (simp add: int_to_string_def)
    with nat_digits_no_minus nat_digits_no_minus
    have "nat_digits (nat now) = nat_digits (nat now') \<and> rnd = rnd'"
      by (rule split_at_first)
    with False pos' show ?thesis
      by (auto dest: nat_digits_inject)
  qed
next
  assume "now = now' \<and> rnd = rnd'"
  then show "new_event_id now rnd = new_event_id now' rnd'" by simp
qed

lemma new_event_id_not_seed: "new_event_id now rnd \<notin> set (map event_id seed_events)"
proof -
  have "length (new_event_id now rnd) \<ge> 6"
    by (simp add: new_event_id_def js_def)
  moreover have "\<forall>i\<in>set (map event_id seed_events). length i = 1"
    by (simp add: seed_ids js_def)
  ultimately show ?thesis by fastforce
qed

subsection \<open>Creating an event\<close>

lemma eventData_fields:
  "eventData page ''title'' = trim (el_value (page ''event-title''))"
  "eventData page ''description'' = trim (el_value (page ''event-description''))"
  "eventData page ''date'' = trim (el_value (page ''event-date''))"
  "eventData page ''imageUrl'' = trim (el_value (page ''event-image''))"
  "eventData page ''category'' = trim (el_value (page ''event-category''))"
  by (simp_all add: eventData_def fields_def)

lemma filled_form_trimmed:
  "trim (el_value (filled_form ''event-title'')) = js ''Feria''"
  "trim (el_value (filled_form ''event-description'')) = js ''Una feria para leer mucho''"
  "trim (el_value (filled_form ''event-date'')) = js ''2026-03-01''"
  "trim (el_value (filled_form ''event-image'')) = []"
  "trim (el_value (filled_form ''event-category'')) = js ''arte''"
  by (simp_all add: filled_form_def form_page_def trim_def js_def is_js_space_def)

text \<open>
  C5, as the claim states it, fails in one part: the id is made from the clock and the random
  generator and is not compared with the ids in use. When the form is submitted twice and the
  clock reading and the random fragment are the same both times, the second event gets the id
  of the first, and the collection has two events of one id.
\<close>

theorem CreateEvent_twice_gives_one_id_twice:
  "formIsValid filled_form
   \<and> createEventForm_submit (script_loaded Map.empty) filled_form 1767225600000 (js ''k3j9x2a'')
       = (\<lparr>events = seed_events @ [feria_event],
           localStorage = [''events'' \<mapsto> JSON_stringify (seed_events @ [feria_event])]\<rparr>,
          Evento_creado feria_event)
   \<and> createEventForm_submit
         \<lparr>events = seed_events @ [feria_event],
           localStorage = [''events'' \<mapsto> JSON_stringify (seed_events @ [feria_event])]\<rparr>
         filled_form 1767225600000 (js ''k3j9x2a'')
       = (\<lparr>events = seed_events @ [feria_event, feria_event],
           localStorage = [''events'' \<mapsto> JSON_stringify (seed_events @ [feria_event, feria_event])]\<rparr>,
          Evento_creado feria_event)
   \<and> event_id feria_event \<in> set (map event_id (seed_events @ [feria_event]))
   \<and> \<not> distinct (map event_id (seed_events @ [feria_event, feria_event]))"
  by (simp add: filled_form_valid create_feria saveEventsToLocalStorage_def script_loaded_def)

text \<open>
  C5, amended. When every field passes validation, the handler makes an event of the trimmed
  values of the fields, with the placeholder path for an empty image, no votes and no
  comments, and with the id \<open>event-\<close>, the clock reading, \<open>-\<close> and the random fragment; it
  appends the event to the collection, saves the collection and writes the event to the
  console (the handler returns nothing). Two ids made this way are equal only when both the
  clock reading and the fragment are, and no such id is the id of an example event. The ids
  of the collection are pairwise distinct afterwards exactly when they were before and no
  event had the new id.
\<close>

theorem CreateEvent_appends_the_new_event:
  assumes "formIsValid page"
  shows
    "(let e = \<lparr>event_id = js ''event-'' @ int_to_string now @ js ''-'' @ rnd,
                title = trim (el_value (page ''event-title'')),
                description = trim (el_value (page ''event-description'')),
                imageUrl = (if trim (el_value (page ''event-image'')) = []
                            then js ''public/images/event-placeholder.jpg''
                            else trim (el_value (page ''event-image''))),
                votes = 0,
                category = trim (el_value (page ''event-category'')),
                date = trim (el_value (page ''event-date'')),
                comments = []\<rparr>
      in createEventForm_submit s page now rnd =
           (s\<lparr>events := events s @ [e],
              localStorage := (localStorage s)(''events'' \<mapsto> JSON_stringify (events s @ [e]))\<rparr>,
            Evento_creado e))
     \<and> (\<forall>now' rnd'. js ''event-'' @ int_to_string now @ js ''-'' @ rnd
                       = js ''event-'' @ int_to_string now' @ js ''-'' @ rnd'
                     \<longleftrightarrow> now = now' \<and> rnd = rnd')
     \<and> js ''event-'' @ int_to_string now @ js ''-'' @ rnd \<notin> set (map event_id seed_events)
     \<and> (distinct (map event_id (events (fst (createEventForm_submit s page now rnd))))
          \<longleftrightarrow> distinct (map event_id (events s))
              \<and> js ''event-'' @ int_to_string now @ js ''-'' @ rnd \<notin> set (map event_id (events s)))"
proof -
  have run: "let e = \<lparr>event_id = js ''event-'' @ int_to_string now @ js ''-'' @ rnd,
                title = trim (el_value (page ''event-title'')),
                description = trim (el_value (page ''event-description'')),
                imageUrl = (if trim (el_value (page ''event-image'')) = []
                            then js ''public/images/event-placeholder.jpg''
                            else trim (el_value (page ''event-image''))),
                votes = 0,
                category = trim (el_value (page ''event-category'')),
                date = trim (el_value (page ''event-date'')),
                comments = []\<rparr>
      in createEventForm_submit s page now rnd =
           (s\<lparr>events := events s @ [e],
              localStorage := (localStorage s)(''events'' \<mapsto> JSON_stringify (events s @ [e]))\<rparr>,
            Evento_creado e)"
    using assms
    by (simp add: createEventForm_submit_def Let_def eventData_fields new_event_id_def
        saveEventsToLocalStorage_def)
  have inj: "\<forall>now' rnd'. js ''event-'' @ int_to_string now @ js ''-'' @ rnd
                       = js ''event-'' @ int_to_string now' @ js ''-'' @ rnd'
                     \<longleftrightarrow> now = now' \<and> rnd = rnd'"
    using new_event_id_inject [of now rnd] by (simp only: new_event_id_def) blast
  have seed: "js ''event-'' @ int_to_string now @ js ''-'' @ rnd \<notin> set (map event_id seed_events)"
    using new_event_id_not_seed [of now rnd] unfolding new_event_id_def .
  have keep: "distinct (map event_id (events (fst (createEventForm_submit s page now rnd))))
          \<longleftrightarrow> distinct (map event_id (events s))
              \<and> js ''event-'' @ int_to_string now @ js ''-'' @ rnd \<notin> set (map event_id (events s))"
    using run by (auto simp: Let_def)
  from run inj seed keep show ?thesis by blast
qed

theorem CreateEvent_appends_the_new_event_witness:
  "formIsValid filled_form
   \<and> createEventForm_submit (script_loaded Map.empty) filled_form 1767225600000 (js ''k3j9x2a'')
       = (\<lparr>events = seed_events @ [feria_event],
           localStorage = [''events'' \<mapsto> JSON_stringify (seed_events @ [feria_event])]\<rparr>,
          Evento_creado feria_event)
   \<and> event_id feria_event = js ''event-1767225600000-k3j9x2a''
   \<and> imageUrl feria_event = js ''public/images/event-placeholder.jpg''
   \<and> votes feria_event = 0 \<and> comments feria_event = []
   \<and> distinct (map event_id (seed_events @ [feria_event]))"
proof -
  let ?s = "script_loaded Map.empty"
  note t = CreateEvent_appends_the_new_event [OF filled_form_valid, of 1767225600000
      "js ''k3j9x2a''" ?s]
  have i: "js ''event-'' @ int_to_string 1767225600000 @ js ''-'' @ js ''k3j9x2a''
      = js ''event-1767225600000-k3j9x2a''"
    using feria_id by (simp only: new_event_id_def)
  from t have run: "createEventForm_submit ?s filled_form 1767225600000 (js ''k3j9x2a'')
       = (\<lparr>events = seed_events @ [feria_event],
           localStorage = [''events'' \<mapsto> JSON_stringify (seed_events @ [feria_event])]\<rparr>,
          Evento_creado feria_event)"
    unfolding i filled_form_trimmed
    by (simp add: Let_def feria_event_def script_loaded_def)
  from t have "js ''event-1767225600000-k3j9x2a'' \<notin> set (map event_id seed_events)"
    unfolding i by blast
  then have "js ''event-1767225600000-k3j9x2a'' \<notin> set (map event_id (events ?s))"
    by (simp add: script_loaded_def)
  moreover have "distinct (map event_id (events ?s))"
    by (simp add: script_loaded_def seed_ids_distinct)
  ultimately have "distinct (map event_id (events (fst
      (createEventForm_submit ?s filled_form 1767225600000 (js ''k3j9x2a'')))))"
    using t unfolding i by blast
  then have d: "distinct (map event_id (seed_events @ [feria_event]))"
    by (simp only: run fst_conv store.select_convs)
  have "event_id feria_event = js ''event-1767225600000-k3j9x2a''"
    and "imageUrl feria_event = js ''public/images/event-placeholder.jpg''"
    and "votes feria_event = 0" and "comments feria_event = []"
    by (simp_all add: feria_event_def)
  with filled_form_valid run d show ?thesis by blast
qed

end
